theory Spec2Isabelle
  imports Complex_Main "HOL-Library.Word"
begin

section \<open>JavaScript strings and values\<close>

text \<open>
  Strings are \<^typ>\<open>string\<close>. \<open>startsWith\<close>, \<open>split\<close> with a one-character
  separator and the ASCII part of \<open>toLowerCase\<close> are written out.
\<close>

definition startsWith :: "string \<Rightarrow> string \<Rightarrow> bool" where
  "startsWith s p = (take (length p) s = p)"

text \<open>\<open>s.split(c)\<close>: never empty, \<open>''''.split(c)\<close> is \<open>['''']\<close>.\<close>

fun split_on :: "char \<Rightarrow> string \<Rightarrow> string list" where
  "split_on c [] = [[]]"
| "split_on c (x # xs) =
     (if x = c then [] # split_on c xs
      else (case split_on c xs of [] \<Rightarrow> [[x]] | h # t \<Rightarrow> (x # h) # t))"

text \<open>\<open>xs[i]\<close> on an array: \<open>undefined\<close> (here \<open>None\<close>) out of range.\<close>

fun nth_opt :: "'a list \<Rightarrow> nat \<Rightarrow> 'a option" where
  "nth_opt [] n = None"
| "nth_opt (x # xs) 0 = Some x"
| "nth_opt (x # xs) (Suc n) = nth_opt xs n"

definition lower_char :: "char \<Rightarrow> char" where
  "lower_char c =
     (case map_of (zip ''ABCDEFGHIJKLMNOPQRSTUVWXYZ'' ''abcdefghijklmnopqrstuvwxyz'') c of
        None \<Rightarrow> c | Some d \<Rightarrow> d)"

definition toLowerCase :: "string \<Rightarrow> string" where
  "toLowerCase s = map lower_char s"

text \<open>
  A property read on an object literal is looked up on \<open>Object.prototype\<close> when the
  literal has no such key of its own. These are the names every object inherits; the
  value read is a function (or, for \<open>__proto__\<close>, the prototype object), which is truthy.
\<close>

definition object_prototype_names :: "string list" where
  "object_prototype_names =
     [''constructor'', ''__defineGetter__'', ''__defineSetter__'', ''hasOwnProperty'',
      ''__lookupGetter__'', ''__lookupSetter__'', ''isPrototypeOf'',
      ''propertyIsEnumerable'', ''toString'', ''valueOf'', ''__proto__'',
      ''toLocaleString'']"

text \<open>The value of \<open>table[key]\<close> for an object literal \<open>table\<close> of strings.\<close>

datatype js_val = JStr string | JInherited string | JUndefined

definition js_lookup :: "(string \<times> string) list \<Rightarrow> string \<Rightarrow> js_val" where
  "js_lookup table k =
     (case map_of table k of
        Some v \<Rightarrow> JStr v
      | None \<Rightarrow> if k \<in> set object_prototype_names then JInherited k else JUndefined)"

text \<open>\<open>a || b\<close> where \<open>a\<close> is a value read from such a table and \<open>b\<close> a string.\<close>

definition js_or :: "js_val \<Rightarrow> string \<Rightarrow> js_val" where
  "js_or a b =
     (case a of
        JStr s \<Rightarrow> if s = [] then JStr b else JStr s
      | JInherited k \<Rightarrow> JInherited k
      | JUndefined \<Rightarrow> JStr b)"

text \<open>\<open>a || b\<close> on two optional strings: \<open>undefined\<close> and \<open>''''\<close> are falsy.\<close>

definition or_undef :: "string option \<Rightarrow> string option \<Rightarrow> string option" where
  "or_undef a b = (case a of None \<Rightarrow> b | Some s \<Rightarrow> if s = [] then b else Some s)"

section \<open>Media descriptors\<close>

text \<open>The element type of the lists handled by \<open>processMediaUrls\<close>:
  \<open>{ type: string; url: string; thumbnailUrl?: string }\<close>.\<close>

record media =
  mtype :: string
  url :: string
  thumbnailUrl :: "string option"

datatype error =
    NotConfigured
  | FetchRejected string
  | UploadFailed nat string
  | BodyNotJson
  | ApiError string
  | NoData
  | NoPayload
  | WriteFailed string
  | ReadFailed string

section \<open>Cloud media service (CloudMediaService)\<close>

text \<open>
  The class \<open>CloudMediaService\<close> (\<open>uploadImage\<close>, \<open>processMediaUrls\<close>) at the end
  of \<open>src/server/routes.ts\<close>. The API key, the network and the requests made so far
  are explicit arguments.
\<close>

record CloudMediaResult =
  c_url :: string
  c_thumbnailUrl :: "string option"
  c_deleteUrl :: "string option"
  c_id :: string

text \<open>The multipart form posted to the provider: \<open>key\<close>, \<open>image\<close> (the value
  handed to \<open>append\<close>, \<open>None\<close> when \<open>split(',')[1]\<close> is \<open>undefined\<close>) and
  the optional \<open>name\<close>.\<close>

record form =
  f_key :: string
  f_image :: "string option"
  f_name :: "string option"

text \<open>The provider's JSON answer, as far as \<open>uploadImage\<close> reads it.\<close>

record imgbb_data =
  d_url :: string
  d_thumb_url :: "string option"
  d_medium_url :: "string option"
  d_delete_url :: "string option"
  d_id :: string

record imgbb_body =
  success :: bool
  error_message :: "string option"
  data :: "imgbb_data option"

text \<open>What \<open>fetch\<close> does: it rejects (network failure), or resolves with a response
  carrying a status, its body as text and, when the body parses, as JSON.\<close>

datatype fetch_outcome =
    Rejected string
  | Response nat string "imgbb_body option"

text \<open>\<open>response.ok\<close>: the status is in 200..299.\<close>

definition resp_ok :: "nat \<Rightarrow> bool" where
  "resp_ok st = (200 \<le> st \<and> st \<le> 299)"

text \<open>The network is an oracle from the number of requests made so far and the form
  sent to the outcome of \<open>fetch\<close>.\<close>

type_synonym network = "nat \<Rightarrow> form \<Rightarrow> fetch_outcome"

text \<open>\<open>!this.imgbbApiKey\<close>: the environment variable is unset or empty.\<close>

definition key_missing :: "string option \<Rightarrow> bool" where
  "key_missing k = (case k of None \<Rightarrow> True | Some s \<Rightarrow> s = [])"

text \<open>The form built by \<open>uploadImage\<close>: \<open>name\<close> is appended only when truthy.\<close>

definition make_form :: "string option \<Rightarrow> string \<Rightarrow> string option \<Rightarrow> form" where
  "make_form apiKey dataUrl name =
     (let base64Data = nth_opt (split_on CHR '','' dataUrl) 1
      in \<lparr> f_key = (case apiKey of None \<Rightarrow> [] | Some k \<Rightarrow> k),
           f_image = base64Data,
           f_name = or_undef name None \<rparr>)"

text \<open>\<open>uploadImage\<close> returns its result or the error thrown, and the log of the
  requests made so far (the state).\<close>

definition uploadImage ::
  "string option \<Rightarrow> network \<Rightarrow> form list \<Rightarrow> string \<Rightarrow> string option
   \<Rightarrow> (error + CloudMediaResult) \<times> form list" where
  "uploadImage apiKey net reqs dataUrl name =
     (if key_missing apiKey then (Inl NotConfigured, reqs)
      else
        let formData = make_form apiKey dataUrl name;
            reqs' = reqs @ [formData]
        in case net (length reqs) formData of
             Rejected m \<Rightarrow> (Inl (FetchRejected m), reqs')
           | Response st txt json \<Rightarrow>
               if \<not> resp_ok st then (Inl (UploadFailed st txt), reqs')
               else (case json of
                       None \<Rightarrow> (Inl BodyNotJson, reqs')
                     | Some result \<Rightarrow>
                         if \<not> success result then
                           (Inl (ApiError (case or_undef (error_message result) None of
                                             None \<Rightarrow> ''Upload failed'' | Some m \<Rightarrow> m)), reqs')
                         else (case data result of
                                 None \<Rightarrow> (Inl NoData, reqs')
                               | Some d \<Rightarrow>
                                   (Inr \<lparr> c_url = d_url d,
                                          c_thumbnailUrl = or_undef (d_thumb_url d) (d_medium_url d),
                                          c_deleteUrl = d_delete_url d,
                                          c_id = d_id d \<rparr>, reqs'))))"

text \<open>The body of the loop of \<open>processMediaUrls\<close>: the state is the array
  \<open>optimizedUrls\<close> built so far and the request log.\<close>

definition cloud_step ::
  "string option \<Rightarrow> network \<Rightarrow> media list \<times> form list \<Rightarrow> media
   \<Rightarrow> media list \<times> form list" where
  "cloud_step apiKey net st m =
     (let optimizedUrls = fst st; reqs = snd st in
      if startsWith (url m) ''data:'' then
        if mtype m = ''image'' then
          (case uploadImage apiKey net reqs (url m) None of
             (Inr cloudResult, reqs') \<Rightarrow>
               (optimizedUrls @ [\<lparr> mtype = mtype m, url = c_url cloudResult,
                                   thumbnailUrl = c_thumbnailUrl cloudResult \<rparr>], reqs')
           | (Inl e, reqs') \<Rightarrow> (optimizedUrls @ [m], reqs'))
        else (optimizedUrls @ [m], reqs)
      else (optimizedUrls @ [m], reqs))"

definition cloud_processMediaUrls ::
  "string option \<Rightarrow> network \<Rightarrow> form list \<Rightarrow> media list \<Rightarrow> media list \<times> form list" where
  "cloud_processMediaUrls apiKey net reqs mediaUrls =
     foldl (cloud_step apiKey net) ([], reqs) mediaUrls"

section \<open>Local media storage service (MediaStorageService)\<close>

text \<open>
  The class \<open>MediaStorageService\<close> of \<open>src/server/media-storage.ts\<close>. The base64
  decoder of \<open>Buffer.from\<close> is an argument \<open>dec\<close>; the disk and the random source
  are the state.
\<close>

type_synonym byte = "8 word"

record MediaFile =
  mf_id :: string
  mf_originalName :: string
  mf_type :: string
  mf_mimeType :: string
  mf_size :: nat
  mf_url :: string
  mf_thumbnailUrl :: "string option"

text \<open>
  The state the service works on: the entries of the uploads directory, by name
  (\<open>join(uploadsDir, fileName)\<close> is not normalised here), with their content; the
  names that exist but on which \<open>readFile\<close> rejects (a directory, a file without
  read permission); the names on which \<open>writeFile\<close> succeeds (none when the
  directory could not be created); and the values \<open>randomBytes(8).toString('hex')\<close>
  will return, with the number drawn so far.
\<close>

record world =
  files :: "string \<Rightarrow> byte list option"
  unreadable :: "string \<Rightarrow> bool"
  writable :: "string \<Rightarrow> bool"
  rng :: "nat \<Rightarrow> string"
  tick :: nat

definition generateMediaId :: "world \<Rightarrow> string \<times> world" where
  "generateMediaId w = (rng w (tick w), w\<lparr> tick := Suc (tick w) \<rparr>)"

definition mimeToExt :: "(string \<times> string) list" where
  "mimeToExt =
     [(''image/jpeg'', ''jpg''), (''image/jpg'', ''jpg''), (''image/png'', ''png''),
      (''image/gif'', ''gif''), (''image/webp'', ''webp''), (''video/mp4'', ''mp4''),
      (''video/webm'', ''webm''), (''video/quicktime'', ''mov'')]"

definition getFileExtension :: "string \<Rightarrow> js_val" where
  "getFileExtension mimeType = js_or (js_lookup mimeToExt mimeType) ''bin''"

text \<open>A value inside a template literal (as V8 prints inherited members).\<close>

definition js_show :: "js_val \<Rightarrow> string" where
  "js_show v =
     (case v of
        JStr s \<Rightarrow> s
      | JUndefined \<Rightarrow> ''undefined''
      | JInherited k \<Rightarrow>
          if k = ''__proto__'' then ''[object Object]''
          else ''function '' @ (if k = ''constructor'' then ''Object'' else k)
                 @ ''() { [native code] }'')"

definition writeFile :: "world \<Rightarrow> string \<Rightarrow> byte list \<Rightarrow> error + world" where
  "writeFile w fileName buffer =
     (if writable w fileName then Inr (w\<lparr> files := (files w)(fileName \<mapsto> buffer) \<rparr>)
      else Inl (WriteFailed fileName))"

definition readFile :: "world \<Rightarrow> string \<Rightarrow> error + byte list" where
  "readFile w fileName =
     (case files w fileName of
        None \<Rightarrow> Inl (ReadFailed fileName)
      | Some b \<Rightarrow> if unreadable w fileName then Inl (ReadFailed fileName) else Inr b)"

definition existsSync :: "world \<Rightarrow> string \<Rightarrow> bool" where
  "existsSync w fileName = (files w fileName \<noteq> None)"

text \<open>
  \<open>storeMedia\<close>. \<open>dec\<close> is \<open>Buffer.from(_, 'base64')\<close>; on \<open>undefined\<close>
  (no comma in the data URL) \<open>Buffer.from\<close> throws.
\<close>

definition storeMedia ::
  "(string \<Rightarrow> byte list) \<Rightarrow> world \<Rightarrow> string \<Rightarrow> string \<Rightarrow> string
   \<Rightarrow> (error + MediaFile) \<times> world" where
  "storeMedia dec w dataUrl originalName mimeType =
     (let mediaId = fst (generateMediaId w);
          w1 = snd (generateMediaId w);
          isImage = startsWith mimeType ''image/'';
          isVideo = startsWith mimeType ''video/''
      in case nth_opt (split_on CHR '','' dataUrl) 1 of
           None \<Rightarrow> (Inl NoPayload, w1)
         | Some base64Data \<Rightarrow>
             let buffer = dec base64Data;
                 ext = getFileExtension mimeType;
                 fileName = mediaId @ ''.'' @ js_show ext
             in (case writeFile w1 fileName buffer of
                  Inl e \<Rightarrow> (Inl e, w1)
                | Inr w2 \<Rightarrow>
                    (Inr \<lparr> mf_id = mediaId,
                           mf_originalName = originalName,
                           mf_type = (if isImage then ''image'' else ''video''),
                           mf_mimeType = mimeType,
                           mf_size = length buffer,
                           mf_url = ''/uploads/'' @ fileName,
                           mf_thumbnailUrl =
                             (if isVideo
                              then Some (''/uploads/thumbnails/'' @ (mediaId @ ''_thumb'') @ ''.jpg'')
                              else None) \<rparr>, w2)))"

definition extensions :: "string list" where
  "extensions = [''jpg'', ''jpeg'', ''png'', ''gif'', ''webp'', ''mp4'', ''webm'', ''mov'']"

fun findMediaFile_loop :: "world \<Rightarrow> string \<Rightarrow> string list \<Rightarrow> string list \<Rightarrow> string list" where
  "findMediaFile_loop w mediaId found [] = found"
| "findMediaFile_loop w mediaId found (ext # exts) =
     (let fileName = mediaId @ ''.'' @ ext
      in if existsSync w fileName
         then findMediaFile_loop w mediaId (found @ [fileName]) exts
         else findMediaFile_loop w mediaId found exts)"

definition findMediaFile :: "world \<Rightarrow> string \<Rightarrow> string list" where
  "findMediaFile w mediaId = findMediaFile_loop w mediaId [] extensions"

text \<open>\<open>getMedia\<close>: \<open>null\<close> (here \<open>None\<close>) when nothing is found or reading the
  first file found throws.\<close>

definition getMedia :: "world \<Rightarrow> string \<Rightarrow> byte list option" where
  "getMedia w mediaId =
     (case findMediaFile w mediaId of
        [] \<Rightarrow> None
      | f # _ \<Rightarrow> (case readFile w f of Inl e \<Rightarrow> None | Inr b \<Rightarrow> Some b))"

text \<open>
  \<open>url.match(/data:([^;]+)/)\<close>: the leftmost position where \<open>data:\<close> is followed
  by at least one character other than \<open>;\<close>; the group is the longest such run.
\<close>

fun mime_match :: "string \<Rightarrow> string option" where
  "mime_match [] = None"
| "mime_match (c # s) =
     (if startsWith (c # s) ''data:'' \<and> takeWhile (\<lambda>x. x \<noteq> CHR '';'') (drop 5 (c # s)) \<noteq> []
      then Some (takeWhile (\<lambda>x. x \<noteq> CHR '';'') (drop 5 (c # s)))
      else mime_match s)"

text \<open>\<open>mimeMatch ? mimeMatch[1] : 'image/jpeg'\<close>.\<close>

definition mimeType_of :: "string \<Rightarrow> string" where
  "mimeType_of u = (case mime_match u of Some x \<Rightarrow> x | None \<Rightarrow> ''image/jpeg'')"

definition local_step ::
  "(string \<Rightarrow> byte list) \<Rightarrow> media list \<times> world \<Rightarrow> media \<Rightarrow> media list \<times> world" where
  "local_step dec st m =
     (let optimizedUrls = fst st; w = snd st in
      if startsWith (url m) ''data:'' then
        let mimeType = mimeType_of (url m)
        in case storeMedia dec w (url m) ''upload'' mimeType of
             (Inr optimizedMedia, w') \<Rightarrow>
               (optimizedUrls @ [\<lparr> mtype = mf_type optimizedMedia, url = mf_url optimizedMedia,
                                   thumbnailUrl = mf_thumbnailUrl optimizedMedia \<rparr>], w')
           | (Inl e, w') \<Rightarrow> (optimizedUrls @ [m], w')
      else (optimizedUrls @ [m], w))"

definition local_processMediaUrls ::
  "(string \<Rightarrow> byte list) \<Rightarrow> world \<Rightarrow> media list \<Rightarrow> media list \<times> world" where
  "local_processMediaUrls dec w mediaUrls = foldl (local_step dec) ([], w) mediaUrls"

section \<open>The route GET /uploads/:filename\<close>

text \<open>The first handler of \<open>registerRoutes\<close> in \<open>src/server/routes.ts\<close>.\<close>

datatype resp_body = Json string | Raw "byte list"

record response =
  r_status :: nat
  r_headers :: "(string \<times> js_val) list"
  r_body :: resp_body

definition contentTypes :: "(string \<times> string) list" where
  "contentTypes =
     [(''jpg'', ''image/jpeg''), (''jpeg'', ''image/jpeg''), (''png'', ''image/png''),
      (''gif'', ''image/gif''), (''webp'', ''image/webp''), (''mp4'', ''video/mp4''),
      (''webm'', ''video/webm''), (''mov'', ''video/quicktime'')]"

text \<open>\<open>filename.split('.')[0]\<close> and \<open>filename.split('.').pop()?.toLowerCase()\<close>;
  \<open>split\<close> never returns an empty array.\<close>

definition id_part :: "string \<Rightarrow> string" where
  "id_part filename = (case split_on CHR ''.'' filename of [] \<Rightarrow> [] | h # _ \<Rightarrow> h)"

definition ext_part :: "string \<Rightarrow> string" where
  "ext_part filename =
     (case rev (split_on CHR ''.'' filename) of [] \<Rightarrow> [] | l # _ \<Rightarrow> toLowerCase l)"

definition contentType_of :: "string \<Rightarrow> js_val" where
  "contentType_of filename =
     js_or (js_lookup contentTypes (ext_part filename)) ''application/octet-stream''"

text \<open>The handler. Nothing inside its \<open>try\<close> throws in this model (\<open>getMedia\<close>
  catches its own errors), so the 500 answer of the \<open>catch\<close> is not a branch.\<close>

definition serve_upload :: "world \<Rightarrow> string \<Rightarrow> response" where
  "serve_upload w filename =
     (let mediaId = id_part filename in
      case getMedia w mediaId of
        None \<Rightarrow> \<lparr> r_status = 404, r_headers = [], r_body = Json ''Media not found'' \<rparr>
      | Some mediaBuffer \<Rightarrow>
          \<lparr> r_status = 200,
            r_headers = [(''Content-Type'', contentType_of filename),
                         (''Cache-Control'', JStr ''public, max-age=31536000'')],
            r_body = Raw mediaBuffer \<rparr>)"

section \<open>Client capture and compression (processFile)\<close>

text \<open>\<open>processFile\<close> of \<open>src/client/src/components/posts/media-upload.tsx\<close>.\<close>

text \<open>
  A selected file: its MIME type and size, the dimensions the browser decodes it to as
  an image (\<open>None\<close>: \<open>img.onerror\<close> fires) and what \<open>FileReader.readAsDataURL\<close>
  yields (\<open>None\<close>: \<open>reader.onerror\<close> fires).
\<close>

record upload_file =
  file_type :: string
  file_size :: nat
  file_image :: "(nat \<times> nat) option"
  file_dataUrl :: "string option"

text \<open>Where a data URL comes from: \<open>canvas.toDataURL(type, quality)\<close> on a canvas of
  the given width and height, or the file reader.\<close>

datatype url_source = Canvas nat nat string rat | Reader string

record client_media =
  cm_type :: string
  cm_url :: url_source
  cm_thumbnailUrl :: "url_source option"
  cm_file :: upload_file

text \<open>
  The new dimensions, computed as in \<open>img.onload\<close> with an exact quotient. (The source
  divides doubles; for the dimensions an image can have, below \<open>2 ^ 32\<close>, the rounded
  quotient truncates to the same integer.)
\<close>

definition new_dimensions :: "nat \<Rightarrow> nat \<Rightarrow> rat \<times> rat" where
  "new_dimensions width height =
     (let maxWidth = 800; maxHeight = 800 in
      if width > height then
        (if width > maxWidth
         then (of_nat maxWidth, (of_nat height * of_nat maxWidth) / of_nat width)
         else (of_nat width, of_nat height))
      else
        (if height > maxHeight
         then ((of_nat width * of_nat maxHeight) / of_nat height, of_nat maxHeight)
         else (of_nat width, of_nat height)))"

text \<open>Assigning a number to \<open>canvas.width\<close> truncates it.\<close>

definition canvas_dim :: "rat \<Rightarrow> nat" where
  "canvas_dim x = nat \<lfloor>x\<rfloor>"

definition processFile :: "upload_file \<Rightarrow> client_media option" where
  "processFile f =
     (if startsWith (file_type f) ''image/'' \<and> file_size f > 1024 * 1024 then
        (case file_image f of
           None \<Rightarrow> None
         | Some (width, height) \<Rightarrow>
             let d = new_dimensions width height
             in Some \<lparr> cm_type = ''image'',
                       cm_url = Canvas (canvas_dim (fst d)) (canvas_dim (snd d))
                                  ''image/jpeg'' (8 / 10),
                       cm_thumbnailUrl = None,
                       cm_file = f \<rparr>)
      else
        (case file_dataUrl f of
           None \<Rightarrow> None
         | Some result \<Rightarrow>
             if result = [] then None
             else
               let t = (if startsWith (file_type f) ''image/'' then ''image'' else ''video'')
               in Some \<lparr> cm_type = t,
                         cm_url = Reader result,
                         cm_thumbnailUrl = (if t = ''video'' then Some (Reader result) else None),
                         cm_file = f \<rparr>))"

section \<open>A base64 decoder for concrete runs\<close>

text \<open>
  \<open>Buffer.from(s, 'base64')\<close>: the standard alphabet and the URL-safe \<open>-\<close> and
  \<open>_\<close> are legal, decoding stops at the first \<open>=\<close>, and any other character is
  skipped.
\<close>

definition b64_alphabet :: string where
  "b64_alphabet = ''ABCDEFGHIJKLMNOPQRSTUVWXYZabcdefghijklmnopqrstuvwxyz0123456789+/''"

definition b64_legal :: "char \<Rightarrow> bool" where
  "b64_legal c = (c \<in> set b64_alphabet \<or> c = CHR ''-'' \<or> c = CHR ''_'')"

definition b64_val :: "char \<Rightarrow> nat" where
  "b64_val c =
     (if c = CHR ''-'' then 62 else if c = CHR ''_'' then 63
      else length (takeWhile (\<lambda>x. x \<noteq> c) b64_alphabet))"

fun b64_groups :: "nat list \<Rightarrow> byte list" where
  "b64_groups (a # b # c # d # rest) =
     of_nat (a * 4 + b div 16) # of_nat ((b mod 16) * 16 + c div 4)
       # of_nat ((c mod 4) * 64 + d) # b64_groups rest"
| "b64_groups [a, b, c] = [of_nat (a * 4 + b div 16), of_nat ((b mod 16) * 16 + c div 4)]"
| "b64_groups [a, b] = [of_nat (a * 4 + b div 16)]"
| "b64_groups _ = []"

definition base64_decode :: "string \<Rightarrow> byte list" where
  "base64_decode s =
     b64_groups (map b64_val (filter b64_legal (takeWhile (\<lambda>c. c \<noteq> CHR ''='') s)))"

section \<open>Concrete environments\<close>

text \<open>A provider that accepts every upload, and a network that is down.\<close>

definition accepting_net :: network where
  "accepting_net n f =
     Response 200 []
       (Some \<lparr> success = True, error_message = None,
               data = Some \<lparr> d_url = ''https://cdn.example/x.png'',
                             d_thumb_url = Some ''https://cdn.example/x_thumb.png'',
                             d_medium_url = None, d_delete_url = None, d_id = ''x'' \<rparr> \<rparr>)"

definition down_net :: network where
  "down_net n f = Rejected ''ECONNRESET''"

text \<open>An empty uploads directory; \<open>readonly_disk\<close> refuses every write.\<close>

definition empty_disk :: world where
  "empty_disk =
     \<lparr> files = (\<lambda>_. None), unreadable = (\<lambda>_. False), writable = (\<lambda>_. True),
       rng = (\<lambda>n. if n = 0 then ''a1b2c3d4e5f60718'' else ''0011223344556677''),
       tick = 0 \<rparr>"

definition readonly_disk :: world where
  "readonly_disk = empty_disk\<lparr> writable := (\<lambda>_. False) \<rparr>"

text \<open>A disk holding one stored PNG.\<close>

definition png_disk :: world where
  "png_disk = empty_disk\<lparr> files := (files empty_disk)(''a1b2c3d4e5f60718.png'' \<mapsto> [77, 97, 110]) \<rparr>"

text \<open>The disk left by storing a BMP data URL on the empty disk.\<close>

definition bin_disk :: world where
  "bin_disk =
     snd (storeMedia base64_decode empty_disk ''data:image/bmp;base64,TWFu'' ''upload''
            ''image/bmp'')"

definition png_entry :: media where
  "png_entry = \<lparr> mtype = ''image'', url = ''data:image/png;base64,AAAA'', thumbnailUrl = None \<rparr>"

definition video_entry :: media where
  "video_entry = \<lparr> mtype = ''video'', url = ''data:video/mp4;base64,AAAA'', thumbnailUrl = None \<rparr>"

definition stored_entry :: media where
  "stored_entry = \<lparr> mtype = ''image'', url = ''/uploads/0a0b0c0d0e0f1011.jpg'', thumbnailUrl = None \<rparr>"

text \<open>An entry labelled as an image whose data URL carries a video.\<close>

definition mislabelled_entry :: media where
  "mislabelled_entry = \<lparr> mtype = ''image'', url = ''data:video/mp4;base64,AAAA'', thumbnailUrl = None \<rparr>"

text \<open>A 2000 x 1000 PNG of the given size in bytes, and an image file the browser
  cannot decode.\<close>

definition png_file :: "nat \<Rightarrow> upload_file" where
  "png_file sz =
     \<lparr> file_type = ''image/png'', file_size = sz, file_image = Some (2000, 1000),
       file_dataUrl = Some ''data:image/png;base64,AAAA'' \<rparr>"

definition broken_file :: upload_file where
  "broken_file =
     \<lparr> file_type = ''image/png'', file_size = 2097152, file_image = None,
       file_dataUrl = Some ''data:image/png;base64,AAAA'' \<rparr>"

section \<open>Loops that push one element per iteration\<close>

lemma foldl_push_length:
  assumes push: "\<And>st m. \<exists>x. fst (step st m) = fst st @ [x]"
  shows "length (fst (foldl step st ms)) = length (fst st) + length ms"
proof (induction ms rule: rev_induct)
  case Nil
  show ?case by simp
next
  case (snoc m ms)
  obtain x where "fst (step (foldl step st ms) m) = fst (foldl step st ms) @ [x]"
    using push by blast
  with snoc show ?case by simp
qed

lemma foldl_push_nth:
  assumes push: "\<And>st m. \<exists>x. fst (step st m) = fst st @ [x]"
    and i: "i < length ms"
  shows "fst (foldl step st ms) ! (length (fst st) + i)
           = last (fst (step (foldl step st (take i ms)) (ms ! i)))"
  using i
proof (induction ms rule: rev_induct)
  case Nil
  then show ?case by simp
next
  case (snoc m ms)
  let ?s = "foldl step st ms"
  obtain x where x: "fst (step ?s m) = fst ?s @ [x]"
    using push by blast
  have len: "length (fst ?s) = length (fst st) + length ms"
    using foldl_push_length [of step st ms] push by simp
  show ?case
  proof (cases "i < length ms")
    case True
    then have "fst (foldl step st (ms @ [m])) ! (length (fst st) + i)
                 = fst ?s ! (length (fst st) + i)"
      using x len by (simp add: nth_append)
    with True snoc.IH show ?thesis by (simp add: nth_append)
  next
    case False
    with snoc.prems have "i = length ms" by simp
    then show ?thesis using x len by (simp add: nth_append)
  qed
qed

lemma cloud_step_push: "\<exists>x. fst (cloud_step k net st m) = fst st @ [x]"
  by (auto simp: cloud_step_def Let_def split: prod.splits sum.splits)

lemma local_step_push: "\<exists>x. fst (local_step dec st m) = fst st @ [x]"
  by (auto simp: local_step_def Let_def split: prod.splits sum.splits)

lemma cloud_length: "length (fst (cloud_processMediaUrls k net reqs ms)) = length ms"
  using foldl_push_length [of "cloud_step k net" "([], reqs)" ms] cloud_step_push
  by (simp add: cloud_processMediaUrls_def)

lemma local_length: "length (fst (local_processMediaUrls dec w ms)) = length ms"
  using foldl_push_length [of "local_step dec" "([], w)" ms] local_step_push
  by (simp add: local_processMediaUrls_def)

lemma cloud_nth:
  "i < length ms \<Longrightarrow>
   fst (cloud_processMediaUrls k net reqs ms) ! i
     = last (fst (cloud_step k net (cloud_processMediaUrls k net reqs (take i ms)) (ms ! i)))"
  using foldl_push_nth [of "cloud_step k net" i ms "([], reqs)"] cloud_step_push
  by (simp add: cloud_processMediaUrls_def)

lemma local_nth:
  "i < length ms \<Longrightarrow>
   fst (local_processMediaUrls dec w ms) ! i
     = last (fst (local_step dec (local_processMediaUrls dec w (take i ms)) (ms ! i)))"
  using foldl_push_nth [of "local_step dec" i ms "([], w)"] local_step_push
  by (simp add: local_processMediaUrls_def)

text \<open>What the loop bodies push.\<close>

lemma cloud_step_plain:
  "\<not> startsWith (url m) ''data:'' \<or> mtype m \<noteq> ''image'' \<Longrightarrow>
   cloud_step k net st m = (fst st @ [m], snd st)"
  by (auto simp: cloud_step_def Let_def)

lemma cloud_step_failed:
  "isl (fst (uploadImage k net (snd st) (url m) None)) \<Longrightarrow>
   fst (cloud_step k net st m) = fst st @ [m]"
  by (auto simp: cloud_step_def Let_def split: prod.splits sum.splits)

lemma cloud_step_uploaded:
  "startsWith (url m) ''data:'' \<Longrightarrow> mtype m = ''image'' \<Longrightarrow>
   fst (uploadImage k net (snd st) (url m) None) = Inr r \<Longrightarrow>
   fst (cloud_step k net st m)
     = fst st @ [\<lparr> mtype = mtype m, url = c_url r, thumbnailUrl = c_thumbnailUrl r \<rparr>]"
  by (auto simp: cloud_step_def Let_def split: prod.splits sum.splits)

lemma local_step_plain:
  "\<not> startsWith (url m) ''data:'' \<Longrightarrow> local_step dec st m = (fst st @ [m], snd st)"
  by (auto simp: local_step_def Let_def)

lemma local_step_failed:
  "isl (fst (storeMedia dec (snd st) (url m) ''upload'' (mimeType_of (url m)))) \<Longrightarrow>
   fst (local_step dec st m) = fst st @ [m]"
  by (auto simp: local_step_def Let_def split: prod.splits sum.splits)

lemma local_step_stored:
  "startsWith (url m) ''data:'' \<Longrightarrow>
   fst (storeMedia dec (snd st) (url m) ''upload'' (mimeType_of (url m))) = Inr f \<Longrightarrow>
   fst (local_step dec st m)
     = fst st @ [\<lparr> mtype = mf_type f, url = mf_url f, thumbnailUrl = mf_thumbnailUrl f \<rparr>]"
  by (auto simp: local_step_def Let_def split: prod.splits sum.splits)

section \<open>Length and order of the normalised list\<close>

text \<open>
  C1. For every media list, in the cloud service and in the local-storage service,
  \<open>processMediaUrls\<close> returns a list of the same length, and the entry at each
  position comes from the input entry at that position: it is that entry itself, or
  the descriptor of the upload (cloud, for an image data URL) or of the stored file
  (local, for a data URL) that was made from that entry's url, in the state reached
  after the entries before it.
\<close>

theorem processMediaUrls_length_order:
  "length (fst (cloud_processMediaUrls k net reqs ms)) = length ms \<and>
   length (fst (local_processMediaUrls dec w ms)) = length ms \<and>
   (\<forall>i<length ms.
      fst (cloud_processMediaUrls k net reqs ms) ! i = ms ! i \<or>
      (startsWith (url (ms ! i)) ''data:'' \<and> mtype (ms ! i) = ''image'' \<and>
       (\<exists>r. fst (uploadImage k net (snd (cloud_processMediaUrls k net reqs (take i ms)))
                  (url (ms ! i)) None) = Inr r \<and>
            fst (cloud_processMediaUrls k net reqs ms) ! i
              = \<lparr> mtype = mtype (ms ! i), url = c_url r,
                  thumbnailUrl = c_thumbnailUrl r \<rparr>))) \<and>
   (\<forall>i<length ms.
      fst (local_processMediaUrls dec w ms) ! i = ms ! i \<or>
      (startsWith (url (ms ! i)) ''data:'' \<and>
       (\<exists>f. fst (storeMedia dec (snd (local_processMediaUrls dec w (take i ms)))
                  (url (ms ! i)) ''upload'' (mimeType_of (url (ms ! i)))) = Inr f \<and>
            fst (local_processMediaUrls dec w ms) ! i
              = \<lparr> mtype = mf_type f, url = mf_url f,
                  thumbnailUrl = mf_thumbnailUrl f \<rparr>)))"
proof (intro conjI allI impI)
  show "length (fst (cloud_processMediaUrls k net reqs ms)) = length ms"
    by (rule cloud_length)
  show "length (fst (local_processMediaUrls dec w ms)) = length ms"
    by (rule local_length)
next
  fix i assume i: "i < length ms"
  let ?m = "ms ! i"
  let ?st = "cloud_processMediaUrls k net reqs (take i ms)"
  let ?up = "fst (uploadImage k net (snd ?st) (url ?m) None)"
  have out: "fst (cloud_processMediaUrls k net reqs ms) ! i = last (fst (cloud_step k net ?st ?m))"
    using i by (rule cloud_nth)
  show "fst (cloud_processMediaUrls k net reqs ms) ! i = ?m \<or>
      (startsWith (url ?m) ''data:'' \<and> mtype ?m = ''image'' \<and>
       (\<exists>r. ?up = Inr r \<and>
            fst (cloud_processMediaUrls k net reqs ms) ! i
              = \<lparr> mtype = mtype ?m, url = c_url r, thumbnailUrl = c_thumbnailUrl r \<rparr>))"
  proof (cases "startsWith (url ?m) ''data:'' \<and> mtype ?m = ''image''")
    case False
    then show ?thesis using out cloud_step_plain [of ?m k net ?st] by auto
  next
    case True
    show ?thesis
    proof (cases ?up)
      case (Inl e)
      then show ?thesis using out cloud_step_failed [of k net ?st ?m] by simp
    next
      case (Inr r)
      then show ?thesis using True out cloud_step_uploaded [of ?m k net ?st r] by simp
    qed
  qed
next
  fix i assume i: "i < length ms"
  let ?m = "ms ! i"
  let ?st = "local_processMediaUrls dec w (take i ms)"
  let ?up = "fst (storeMedia dec (snd ?st) (url ?m) ''upload'' (mimeType_of (url ?m)))"
  have out: "fst (local_processMediaUrls dec w ms) ! i = last (fst (local_step dec ?st ?m))"
    using i by (rule local_nth)
  show "fst (local_processMediaUrls dec w ms) ! i = ?m \<or>
      (startsWith (url ?m) ''data:'' \<and>
       (\<exists>f. ?up = Inr f \<and>
            fst (local_processMediaUrls dec w ms) ! i
              = \<lparr> mtype = mf_type f, url = mf_url f, thumbnailUrl = mf_thumbnailUrl f \<rparr>))"
  proof (cases "startsWith (url ?m) ''data:''")
    case False
    then show ?thesis using out local_step_plain [of ?m dec ?st] by simp
  next
    case True
    show ?thesis
    proof (cases ?up)
      case (Inl e)
      then show ?thesis using out local_step_failed [of dec ?st ?m] by simp
    next
      case (Inr f)
      then show ?thesis using True out local_step_stored [of ?m dec ?st f] by simp
    qed
  qed
qed

theorem processMediaUrls_length_order_witness:
  "(0::nat) < length [png_entry, stored_entry] \<and>
   length (fst (cloud_processMediaUrls (Some ''k'') accepting_net [] [png_entry, stored_entry]))
     = length [png_entry, stored_entry] \<and>
   length (fst (local_processMediaUrls base64_decode empty_disk [png_entry, stored_entry]))
     = length [png_entry, stored_entry] \<and>
   fst (cloud_processMediaUrls (Some ''k'') accepting_net [] [png_entry, stored_entry])
     = [\<lparr> mtype = ''image'', url = ''https://cdn.example/x.png'',
          thumbnailUrl = Some ''https://cdn.example/x_thumb.png'' \<rparr>, stored_entry] \<and>
   fst (local_processMediaUrls base64_decode empty_disk [png_entry, stored_entry])
     = [\<lparr> mtype = ''image'', url = ''/uploads/a1b2c3d4e5f60718.png'', thumbnailUrl = None \<rparr>,
        stored_entry]"
proof -
  note t = processMediaUrls_length_order
          [of "Some ''k''" accepting_net "[]" "[png_entry, stored_entry]" base64_decode empty_disk]
  have c: "fst (cloud_processMediaUrls (Some ''k'') accepting_net [] [png_entry, stored_entry])
     = [\<lparr> mtype = ''image'', url = ''https://cdn.example/x.png'',
          thumbnailUrl = Some ''https://cdn.example/x_thumb.png'' \<rparr>, stored_entry]"
    by (simp add: cloud_processMediaUrls_def cloud_step_def uploadImage_def key_missing_def
        make_form_def startsWith_def resp_ok_def or_undef_def Let_def
        png_entry_def stored_entry_def accepting_net_def)
  have l: "fst (local_processMediaUrls base64_decode empty_disk [png_entry, stored_entry])
     = [\<lparr> mtype = ''image'', url = ''/uploads/a1b2c3d4e5f60718.png'', thumbnailUrl = None \<rparr>,
        stored_entry]"
    by (simp add: local_processMediaUrls_def local_step_def mimeType_of_def storeMedia_def
        generateMediaId_def startsWith_def writeFile_def getFileExtension_def js_or_def
        js_lookup_def mimeToExt_def js_show_def Let_def
        png_entry_def stored_entry_def empty_disk_def)
  from t c l show ?thesis by simp
qed

section \<open>Entries that are not data URLs\<close>

lemma cloud_foldl_plain:
  "\<forall>m\<in>set ms. \<not> startsWith (url m) ''data:'' \<Longrightarrow>
   foldl (cloud_step k net) (acc, reqs) ms = (acc @ ms, reqs)"
  by (induction ms arbitrary: acc) (simp_all add: cloud_step_plain)

lemma local_foldl_plain:
  "\<forall>m\<in>set ms. \<not> startsWith (url m) ''data:'' \<Longrightarrow>
   foldl (local_step dec) (acc, w) ms = (acc @ ms, w)"
  by (induction ms arbitrary: acc) (simp_all add: local_step_plain)

text \<open>
  C2. In both services an entry whose url does not start with \<open>data:\<close> is returned
  as it is, at its position; and on a list none of whose urls starts with \<open>data:\<close>
  \<open>processMediaUrls\<close> returns the list itself and leaves the state (the requests made,
  the disk) untouched, so processing a normalised list again changes nothing.
\<close>

theorem processMediaUrls_passthrough:
  "(\<forall>i<length ms. \<not> startsWith (url (ms ! i)) ''data:'' \<longrightarrow>
      fst (cloud_processMediaUrls k net reqs ms) ! i = ms ! i \<and>
      fst (local_processMediaUrls dec w ms) ! i = ms ! i) \<and>
   ((\<forall>m\<in>set ms. \<not> startsWith (url m) ''data:'') \<longrightarrow>
      cloud_processMediaUrls k net reqs ms = (ms, reqs) \<and>
      local_processMediaUrls dec w ms = (ms, w))"
proof (intro conjI allI impI)
  fix i assume i: "i < length ms" and plain: "\<not> startsWith (url (ms ! i)) ''data:''"
  show "fst (cloud_processMediaUrls k net reqs ms) ! i = ms ! i"
    using cloud_nth [OF i, of k net reqs] plain
    by (simp add: cloud_step_plain)
  show "fst (local_processMediaUrls dec w ms) ! i = ms ! i"
    using local_nth [OF i, of dec w] plain
    by (simp add: local_step_plain)
next
  assume all: "\<forall>m\<in>set ms. \<not> startsWith (url m) ''data:''"
  show "cloud_processMediaUrls k net reqs ms = (ms, reqs)"
    using cloud_foldl_plain [OF all, of k net "[]" reqs]
    by (simp add: cloud_processMediaUrls_def)
  show "local_processMediaUrls dec w ms = (ms, w)"
    using local_foldl_plain [OF all, of dec "[]" w]
    by (simp add: local_processMediaUrls_def)
qed

theorem processMediaUrls_passthrough_witness:
  "(1::nat) < length [png_entry, stored_entry] \<and>
   \<not> startsWith (url ([png_entry, stored_entry] ! 1)) ''data:'' \<and>
   fst (cloud_processMediaUrls (Some ''k'') accepting_net [] [png_entry, stored_entry]) ! 1
     = stored_entry \<and>
   fst (local_processMediaUrls base64_decode empty_disk [png_entry, stored_entry]) ! 1
     = stored_entry \<and>
   \<not> startsWith (url stored_entry) ''data:'' \<and>
   cloud_processMediaUrls (Some ''k'') down_net [] [stored_entry, stored_entry]
     = ([stored_entry, stored_entry], []) \<and>
   local_processMediaUrls base64_decode readonly_disk [stored_entry, stored_entry]
     = ([stored_entry, stored_entry], readonly_disk)"
proof -
  have plain: "\<not> startsWith (url stored_entry) ''data:''"
    by (simp add: startsWith_def stored_entry_def)
  have one: "(1::nat) < length [png_entry, stored_entry]" by simp
  show ?thesis
    using plain one
      processMediaUrls_passthrough
        [of "[png_entry, stored_entry]" "Some ''k''" accepting_net "[]" base64_decode empty_disk]
      processMediaUrls_passthrough
        [of "[stored_entry, stored_entry]" "Some ''k''" down_net "[]" base64_decode readonly_disk]
    by simp
qed

section \<open>Video entries\<close>

lemma startsWith_data_hd: "startsWith s ''data:'' \<Longrightarrow> \<exists>t. s = CHR ''d'' # t"
  by (cases s) (auto simp: startsWith_def)

lemma storeMedia_url:
  "fst (storeMedia dec w u n mt) = Inr f \<Longrightarrow> \<exists>t. mf_url f = CHR ''/'' # t"
  by (auto simp: storeMedia_def Let_def split: option.splits sum.splits)

lemma stored_differs:
  assumes "startsWith (url m) ''data:''" and "fst (storeMedia dec w u n mt) = Inr f"
  shows "\<lparr> mtype = mf_type f, url = mf_url f, thumbnailUrl = mf_thumbnailUrl f \<rparr> \<noteq> m"
proof
  assume eq: "\<lparr> mtype = mf_type f, url = mf_url f, thumbnailUrl = mf_thumbnailUrl f \<rparr> = m"
  then have "url m = mf_url f" by auto
  then show False
    using startsWith_data_hd [OF assms(1)] storeMedia_url [OF assms(2)] by auto
qed

text \<open>
  C3, as stated, fails in the local-storage service: a video entry whose url is a data
  URL is stored, and the output entry carries the url of the stored file and a
  thumbnail url.
\<close>

theorem video_entries_counterexample:
  "mtype video_entry = ''video'' \<and>
   fst (local_processMediaUrls base64_decode empty_disk [video_entry]) ! 0 \<noteq> video_entry \<and>
   fst (local_processMediaUrls base64_decode empty_disk [video_entry])
     = [\<lparr> mtype = ''video'', url = ''/uploads/a1b2c3d4e5f60718.mp4'',
          thumbnailUrl = Some ''/uploads/thumbnails/a1b2c3d4e5f60718_thumb.jpg'' \<rparr>]"
  by (simp add: local_processMediaUrls_def local_step_def storeMedia_def generateMediaId_def
     startsWith_def writeFile_def getFileExtension_def mimeType_of_def
     js_or_def js_lookup_def mimeToExt_def js_show_def Let_def video_entry_def empty_disk_def)

lemma storeMedia_stored:
  "nth_opt (split_on CHR '','' u) 1 \<noteq> None \<Longrightarrow>
   writable w (rng w (tick w) @ ''.'' @ js_show (getFileExtension mt)) \<Longrightarrow>
   fst (storeMedia dec w u n mt)
     = Inr \<lparr> mf_id = rng w (tick w),
             mf_originalName = n,
             mf_type = (if startsWith mt ''image/'' then ''image'' else ''video''),
             mf_mimeType = mt,
             mf_size = length (dec (case nth_opt (split_on CHR '','' u) 1 of
                                      None \<Rightarrow> [] | Some p \<Rightarrow> p)),
             mf_url = ''/uploads/'' @ rng w (tick w) @ ''.'' @ js_show (getFileExtension mt),
             mf_thumbnailUrl =
               (if startsWith mt ''video/''
                then Some (''/uploads/thumbnails/'' @ rng w (tick w) @ ''_thumb.jpg'')
                else None) \<rparr>"
  by (auto simp: storeMedia_def generateMediaId_def writeFile_def Let_def)

lemma storeMedia_fails:
  "isl (fst (storeMedia dec w u n mt)) \<longleftrightarrow>
   nth_opt (split_on CHR '','' u) 1 = None \<or>
   \<not> writable w (rng w (tick w) @ ''.'' @ js_show (getFileExtension mt))"
  by (auto simp: storeMedia_def generateMediaId_def writeFile_def Let_def split: option.splits)

text \<open>
  C3, amended. In the cloud service a video entry is always returned as it is, data URL
  or not. In the local-storage service a video entry is returned as it is exactly when
  its url is not a data URL or storing it fails, that is, when the url has no payload
  after a comma or the file cannot be written. A video entry whose url is a data URL and
  that is stored is replaced by the descriptor of the stored file: its type is
  \<open>image\<close> or \<open>video\<close> by the MIME type parsed from the url, its url is
  \<open>/uploads/id.ext\<close> for the ID drawn and the extension of that MIME type, and it has
  the placeholder thumbnail url exactly when the MIME type starts with \<open>video/\<close>.
\<close>

theorem video_entries:
  "(\<forall>i<length ms. mtype (ms ! i) = ''video'' \<longrightarrow>
      fst (cloud_processMediaUrls k net reqs ms) ! i = ms ! i) \<and>
   (\<forall>i<length ms. mtype (ms ! i) = ''video'' \<longrightarrow>
      (fst (local_processMediaUrls dec w ms) ! i = ms ! i \<longleftrightarrow>
         \<not> startsWith (url (ms ! i)) ''data:'' \<or>
         isl (fst (storeMedia dec (snd (local_processMediaUrls dec w (take i ms)))
                    (url (ms ! i)) ''upload'' (mimeType_of (url (ms ! i))))))) \<and>
   (\<forall>i<length ms. mtype (ms ! i) = ''video'' \<longrightarrow>
      (isl (fst (storeMedia dec (snd (local_processMediaUrls dec w (take i ms)))
                  (url (ms ! i)) ''upload'' (mimeType_of (url (ms ! i))))) \<longleftrightarrow>
         nth_opt (split_on CHR '','' (url (ms ! i))) 1 = None \<or>
         \<not> writable (snd (local_processMediaUrls dec w (take i ms)))
             (rng (snd (local_processMediaUrls dec w (take i ms)))
                  (tick (snd (local_processMediaUrls dec w (take i ms))))
              @ ''.'' @ js_show (getFileExtension (mimeType_of (url (ms ! i))))))) \<and>
   (\<forall>i<length ms.
      mtype (ms ! i) = ''video'' \<and> startsWith (url (ms ! i)) ''data:'' \<and>
      \<not> isl (fst (storeMedia dec (snd (local_processMediaUrls dec w (take i ms)))
                    (url (ms ! i)) ''upload'' (mimeType_of (url (ms ! i))))) \<longrightarrow>
      fst (local_processMediaUrls dec w ms) ! i
        = \<lparr> mtype = (if startsWith (mimeType_of (url (ms ! i))) ''image/''
                     then ''image'' else ''video''),
            url = ''/uploads/''
                  @ rng (snd (local_processMediaUrls dec w (take i ms)))
                        (tick (snd (local_processMediaUrls dec w (take i ms))))
                  @ ''.'' @ js_show (getFileExtension (mimeType_of (url (ms ! i)))),
            thumbnailUrl =
              (if startsWith (mimeType_of (url (ms ! i))) ''video/''
               then Some (''/uploads/thumbnails/''
                          @ rng (snd (local_processMediaUrls dec w (take i ms)))
                                (tick (snd (local_processMediaUrls dec w (take i ms))))
                          @ ''_thumb.jpg'')
               else None) \<rparr>)"
proof (intro conjI allI impI)
  fix i assume i: "i < length ms" and v: "mtype (ms ! i) = ''video''"
  show "fst (cloud_processMediaUrls k net reqs ms) ! i = ms ! i"
    using cloud_nth [OF i, of k net reqs] v by (simp add: cloud_step_plain)
next
  fix i assume i: "i < length ms" and v: "mtype (ms ! i) = ''video''"
  let ?m = "ms ! i"
  let ?st = "local_processMediaUrls dec w (take i ms)"
  let ?up = "fst (storeMedia dec (snd ?st) (url ?m) ''upload'' (mimeType_of (url ?m)))"
  have out: "fst (local_processMediaUrls dec w ms) ! i = last (fst (local_step dec ?st ?m))"
    using i by (rule local_nth)
  show "fst (local_processMediaUrls dec w ms) ! i = ?m \<longleftrightarrow>
        \<not> startsWith (url ?m) ''data:'' \<or> isl ?up"
  proof (cases "startsWith (url ?m) ''data:''")
    case False
    then show ?thesis using out by (simp add: local_step_plain)
  next
    case True
    show ?thesis
    proof (cases ?up)
      case (Inl e)
      then show ?thesis using out local_step_failed [of dec ?st ?m] by simp
    next
      case (Inr f)
      then show ?thesis
        using True out local_step_stored [of ?m dec ?st f] stored_differs [OF True Inr]
        by simp
    qed
  qed
next
  fix i assume "i < length ms" and "mtype (ms ! i) = ''video''"
  show "isl (fst (storeMedia dec (snd (local_processMediaUrls dec w (take i ms)))
                  (url (ms ! i)) ''upload'' (mimeType_of (url (ms ! i))))) \<longleftrightarrow>
         nth_opt (split_on CHR '','' (url (ms ! i))) 1 = None \<or>
         \<not> writable (snd (local_processMediaUrls dec w (take i ms)))
             (rng (snd (local_processMediaUrls dec w (take i ms)))
                  (tick (snd (local_processMediaUrls dec w (take i ms))))
              @ ''.'' @ js_show (getFileExtension (mimeType_of (url (ms ! i)))))"
    by (rule storeMedia_fails)
next
  fix i
  let ?m = "ms ! i"
  let ?st = "local_processMediaUrls dec w (take i ms)"
  let ?mt = "mimeType_of (url ?m)"
  let ?up = "fst (storeMedia dec (snd ?st) (url ?m) ''upload'' ?mt)"
  assume i: "i < length ms"
    and h: "mtype ?m = ''video'' \<and> startsWith (url ?m) ''data:'' \<and> \<not> isl ?up"
  have out: "fst (local_processMediaUrls dec w ms) ! i = last (fst (local_step dec ?st ?m))"
    using i by (rule local_nth)
  from h have ok: "nth_opt (split_on CHR '','' (url ?m)) 1 \<noteq> None"
    and wr: "writable (snd ?st) (rng (snd ?st) (tick (snd ?st)) @ ''.'' @ js_show (getFileExtension ?mt))"
    using storeMedia_fails [of dec "snd ?st" "url ?m" "''upload''" ?mt] by auto
  note st = storeMedia_stored [OF ok wr, of dec "''upload''"]
  have "fst (local_step dec ?st ?m)
          = fst ?st @ [\<lparr> mtype = (if startsWith ?mt ''image/'' then ''image'' else ''video''),
              url = ''/uploads/'' @ rng (snd ?st) (tick (snd ?st)) @ ''.''
                    @ js_show (getFileExtension ?mt),
              thumbnailUrl =
                (if startsWith ?mt ''video/''
                 then Some (''/uploads/thumbnails/'' @ rng (snd ?st) (tick (snd ?st))
                            @ ''_thumb.jpg'')
                 else None) \<rparr>]"
    using h local_step_stored [of ?m dec ?st, OF _ st] by simp
  with out show "fst (local_processMediaUrls dec w ms) ! i
        = \<lparr> mtype = (if startsWith ?mt ''image/'' then ''image'' else ''video''),
            url = ''/uploads/'' @ rng (snd ?st) (tick (snd ?st)) @ ''.''
                  @ js_show (getFileExtension ?mt),
            thumbnailUrl =
              (if startsWith ?mt ''video/''
               then Some (''/uploads/thumbnails/'' @ rng (snd ?st) (tick (snd ?st))
                          @ ''_thumb.jpg'')
               else None) \<rparr>"
    by simp
qed

theorem video_entries_witness:
  "(0::nat) < length [video_entry] \<and> mtype ([video_entry] ! 0) = ''video'' \<and>
   fst (cloud_processMediaUrls (Some ''k'') accepting_net [] [video_entry]) ! 0 = video_entry \<and>
   isl (fst (storeMedia base64_decode readonly_disk (url video_entry) ''upload''
               (mimeType_of (url video_entry)))) \<and>
   fst (local_processMediaUrls base64_decode readonly_disk [video_entry]) ! 0 = video_entry \<and>
   startsWith (url video_entry) ''data:'' \<and>
   \<not> isl (fst (storeMedia base64_decode empty_disk (url video_entry) ''upload''
                 (mimeType_of (url video_entry)))) \<and>
   fst (local_processMediaUrls base64_decode empty_disk [video_entry]) ! 0
     = \<lparr> mtype = ''video'', url = ''/uploads/a1b2c3d4e5f60718.mp4'',
         thumbnailUrl = Some ''/uploads/thumbnails/a1b2c3d4e5f60718_thumb.jpg'' \<rparr>"
proof -
  note ro = video_entries
      [of "[video_entry]" "Some ''k''" accepting_net "[]" base64_decode readonly_disk]
  note rw = video_entries
      [of "[video_entry]" "Some ''k''" accepting_net "[]" base64_decode empty_disk]
  have v: "mtype video_entry = ''video''"
    by (simp add: video_entry_def)
  have d: "startsWith (url video_entry) ''data:''"
    by (simp add: video_entry_def startsWith_def)
  have mt: "mimeType_of (url video_entry) = ''video/mp4''"
    by (simp add: mimeType_of_def video_entry_def startsWith_def)
  have ext: "js_show (getFileExtension ''video/mp4'') = ''mp4''"
    by (simp add: getFileExtension_def js_lookup_def js_or_def js_show_def mimeToExt_def)
  have fails: "isl (fst (storeMedia base64_decode readonly_disk (url video_entry) ''upload''
                     (mimeType_of (url video_entry))))"
    by (simp add: storeMedia_def generateMediaId_def writeFile_def Let_def video_entry_def
        readonly_disk_def empty_disk_def)
  have stores: "\<not> isl (fst (storeMedia base64_decode empty_disk (url video_entry) ''upload''
                     (mimeType_of (url video_entry))))"
    by (simp add: storeMedia_def generateMediaId_def writeFile_def Let_def video_entry_def
        empty_disk_def)
  have st: "snd (local_processMediaUrls base64_decode x (take 0 [video_entry])) = x" for x
    by (simp add: local_processMediaUrls_def)
  have id: "rng empty_disk (tick empty_disk) = ''a1b2c3d4e5f60718''"
    by (simp add: empty_disk_def)
  have c: "fst (cloud_processMediaUrls (Some ''k'') accepting_net [] [video_entry]) ! 0
             = video_entry"
    using ro v by simp
  have l: "fst (local_processMediaUrls base64_decode readonly_disk [video_entry]) ! 0
             = video_entry"
    using ro v fails st by simp
  have s: "fst (local_processMediaUrls base64_decode empty_disk [video_entry]) ! 0
     = \<lparr> mtype = ''video'', url = ''/uploads/a1b2c3d4e5f60718.mp4'',
         thumbnailUrl = Some ''/uploads/thumbnails/a1b2c3d4e5f60718_thumb.jpg'' \<rparr>"
    using rw v d stores st id mt ext by (simp add: startsWith_def)
  from v d fails stores c l s show ?thesis by simp
qed

section \<open>Failures of single entries\<close>

lemma uploadImage_no_key: "uploadImage None net reqs u n = (Inl NotConfigured, reqs)"
  by (simp add: uploadImage_def key_missing_def)

lemma storeMedia_readonly:
  "\<forall>f. \<not> writable w f \<Longrightarrow> isl (fst (storeMedia dec w u n mt))"
  by (simp add: storeMedia_def generateMediaId_def writeFile_def Let_def split: option.splits)

text \<open>
  C5. \<open>processMediaUrls\<close> has no error result: every throw of \<open>uploadImage\<close> or
  \<open>storeMedia\<close> is caught inside the loop body. When the upload (cloud) or the store
  (local) of the entry at a position fails, the output has the original entry at that
  position; and when every upload or store that is attempted fails, the output list is
  the input list.
\<close>

theorem per_item_failures:
  "(\<forall>i<length ms.
      isl (fst (uploadImage k net (snd (cloud_processMediaUrls k net reqs (take i ms)))
                 (url (ms ! i)) None)) \<longrightarrow>
      fst (cloud_processMediaUrls k net reqs ms) ! i = ms ! i) \<and>
   (\<forall>i<length ms.
      isl (fst (storeMedia dec (snd (local_processMediaUrls dec w (take i ms)))
                 (url (ms ! i)) ''upload'' (mimeType_of (url (ms ! i))))) \<longrightarrow>
      fst (local_processMediaUrls dec w ms) ! i = ms ! i) \<and>
   ((\<forall>i<length ms. startsWith (url (ms ! i)) ''data:'' \<and> mtype (ms ! i) = ''image'' \<longrightarrow>
      isl (fst (uploadImage k net (snd (cloud_processMediaUrls k net reqs (take i ms)))
                 (url (ms ! i)) None))) \<longrightarrow>
    fst (cloud_processMediaUrls k net reqs ms) = ms) \<and>
   ((\<forall>i<length ms. startsWith (url (ms ! i)) ''data:'' \<longrightarrow>
      isl (fst (storeMedia dec (snd (local_processMediaUrls dec w (take i ms)))
                 (url (ms ! i)) ''upload'' (mimeType_of (url (ms ! i)))))) \<longrightarrow>
    fst (local_processMediaUrls dec w ms) = ms)"
proof -
  have c: "fst (cloud_processMediaUrls k net reqs ms) ! i = ms ! i"
    if "i < length ms"
      and "isl (fst (uploadImage k net (snd (cloud_processMediaUrls k net reqs (take i ms)))
                      (url (ms ! i)) None))" for i
    using cloud_nth [OF that(1), of k net reqs] cloud_step_failed [OF that(2)] by simp
  have l: "fst (local_processMediaUrls dec w ms) ! i = ms ! i"
    if "i < length ms"
      and "isl (fst (storeMedia dec (snd (local_processMediaUrls dec w (take i ms)))
                      (url (ms ! i)) ''upload'' (mimeType_of (url (ms ! i)))))" for i
    using local_nth [OF that(1), of dec w] local_step_failed [OF that(2)] by simp
  have call: "fst (cloud_processMediaUrls k net reqs ms) = ms"
    if all: "\<forall>i<length ms. startsWith (url (ms ! i)) ''data:'' \<and> mtype (ms ! i) = ''image'' \<longrightarrow>
        isl (fst (uploadImage k net (snd (cloud_processMediaUrls k net reqs (take i ms)))
                   (url (ms ! i)) None))"
  proof (rule nth_equalityI)
    show "length (fst (cloud_processMediaUrls k net reqs ms)) = length ms"
      by (rule cloud_length)
  next
    fix i assume "i < length (fst (cloud_processMediaUrls k net reqs ms))"
    then have i: "i < length ms" by (simp add: cloud_length)
    show "fst (cloud_processMediaUrls k net reqs ms) ! i = ms ! i"
    proof (cases "startsWith (url (ms ! i)) ''data:'' \<and> mtype (ms ! i) = ''image''")
      case True
      with all i show ?thesis using c by blast
    next
      case False
      then show ?thesis
        using cloud_nth [OF i, of k net reqs] cloud_step_plain [of "ms ! i" k net] by auto
    qed
  qed
  have lall: "fst (local_processMediaUrls dec w ms) = ms"
    if all: "\<forall>i<length ms. startsWith (url (ms ! i)) ''data:'' \<longrightarrow>
        isl (fst (storeMedia dec (snd (local_processMediaUrls dec w (take i ms)))
                   (url (ms ! i)) ''upload'' (mimeType_of (url (ms ! i)))))"
  proof (rule nth_equalityI)
    show "length (fst (local_processMediaUrls dec w ms)) = length ms"
      by (rule local_length)
  next
    fix i assume "i < length (fst (local_processMediaUrls dec w ms))"
    then have i: "i < length ms" by (simp add: local_length)
    show "fst (local_processMediaUrls dec w ms) ! i = ms ! i"
    proof (cases "startsWith (url (ms ! i)) ''data:''")
      case True
      with all i show ?thesis using l by blast
    next
      case False
      then show ?thesis
        using local_nth [OF i, of dec w] by (simp add: local_step_plain)
    qed
  qed
  show ?thesis using c l call lall by blast
qed

theorem per_item_failures_witness:
  "(0::nat) < length [png_entry, stored_entry] \<and>
   isl (fst (uploadImage None accepting_net [] (url ([png_entry, stored_entry] ! 0)) None)) \<and>
   fst (cloud_processMediaUrls None accepting_net [] [png_entry, stored_entry]) ! 0 = png_entry \<and>
   fst (cloud_processMediaUrls None accepting_net [] [png_entry, stored_entry])
     = [png_entry, stored_entry] \<and>
   isl (fst (storeMedia base64_decode readonly_disk (url png_entry) ''upload''
               (mimeType_of (url png_entry)))) \<and>
   fst (local_processMediaUrls base64_decode readonly_disk [png_entry, stored_entry]) ! 0
     = png_entry"
proof -
  have up: "isl (fst (uploadImage None accepting_net rq u None))" for rq u
    by (simp add: uploadImage_no_key)
  have ro: "isl (fst (storeMedia base64_decode readonly_disk (url png_entry) ''upload''
                     (mimeType_of (url png_entry))))"
    by (rule storeMedia_readonly) (simp add: readonly_disk_def)
  have st: "snd (local_processMediaUrls base64_decode readonly_disk (take 0 [png_entry, stored_entry]))
              = readonly_disk"
    by (simp add: local_processMediaUrls_def)
  show ?thesis
    using up ro st
      per_item_failures [of "[png_entry, stored_entry]" None accepting_net "[]"
                            base64_decode readonly_disk]
    by simp
qed

section \<open>When uploadImage throws\<close>

text \<open>
  C7, as stated, fails in its "only if" half: with the key configured, a rejected
  \<open>fetch\<close> (a network failure) makes \<open>uploadImage\<close> throw although there is no
  response at all, so neither a non-2xx status nor a \<open>success: false\<close> body.
\<close>

theorem uploadImage_throws_counterexample:
  "\<not> key_missing (Some ''k'') \<and>
   down_net 0 (make_form (Some ''k'') ''data:image/png;base64,AAAA'' None) = Rejected ''ECONNRESET'' \<and>
   uploadImage (Some ''k'') down_net [] ''data:image/png;base64,AAAA'' None
     = (Inl (FetchRejected ''ECONNRESET''),
        [\<lparr> f_key = ''k'', f_image = Some ''AAAA'', f_name = None \<rparr>])"
  by (simp add: uploadImage_def key_missing_def down_net_def make_form_def or_undef_def Let_def)

text \<open>
  C7, amended. \<open>uploadImage\<close> throws if and only if the API key is not configured
  (unset or empty), or \<open>fetch\<close> rejects, or the response status is outside 200..299,
  or the body of a 2xx response is not JSON, or its \<open>success\<close> is falsy, or it has
  no \<open>data\<close> object. With no key configured it throws the configuration error and
  the request log is unchanged: no request is made. With a key it makes exactly one
  request.
\<close>

theorem uploadImage_throws:
  "(isl (fst (uploadImage k net reqs u n)) \<longleftrightarrow>
      key_missing k \<or>
      (case net (length reqs) (make_form k u n) of
         Rejected msg \<Rightarrow> True
       | Response st txt json \<Rightarrow>
           \<not> resp_ok st \<or>
           (case json of
              None \<Rightarrow> True
            | Some result \<Rightarrow> \<not> success result \<or> data result = None))) \<and>
   (key_missing k \<longrightarrow> uploadImage k net reqs u n = (Inl NotConfigured, reqs)) \<and>
   (\<not> key_missing k \<longrightarrow> snd (uploadImage k net reqs u n) = reqs @ [make_form k u n])"
  by (auto simp: uploadImage_def Let_def split: fetch_outcome.splits option.splits)

theorem uploadImage_throws_witness:
  "key_missing None \<and>
   uploadImage None accepting_net [] ''data:image/png;base64,AAAA'' None = (Inl NotConfigured, []) \<and>
   \<not> key_missing (Some ''k'') \<and>
   \<not> isl (fst (uploadImage (Some ''k'') accepting_net [] ''data:image/png;base64,AAAA'' None)) \<and>
   snd (uploadImage (Some ''k'') accepting_net [] ''data:image/png;base64,AAAA'' None)
     = [make_form (Some ''k'') ''data:image/png;base64,AAAA'' None]"
  using uploadImage_throws [of None accepting_net "[]" "''data:image/png;base64,AAAA''" None]
    uploadImage_throws [of "Some ''k''" accepting_net "[]" "''data:image/png;base64,AAAA''" None]
  by (simp add: key_missing_def accepting_net_def resp_ok_def)

section \<open>Serving stored media\<close>

lemma split_on_hd: "\<exists>t. split_on c s = takeWhile (\<lambda>x. x \<noteq> c) s # t"
  by (induction s) (auto split: list.splits)

lemma id_part_takeWhile: "id_part filename = takeWhile (\<lambda>x. x \<noteq> CHR ''.'') filename"
proof -
  obtain t where "split_on CHR ''.'' filename = takeWhile (\<lambda>x. x \<noteq> CHR ''.'') filename # t"
    using split_on_hd by blast
  then show ?thesis by (simp add: id_part_def)
qed

lemma id_part_append:
  "CHR ''.'' \<notin> set mediaId \<Longrightarrow> id_part (mediaId @ CHR ''.'' # ext) = mediaId"
  unfolding id_part_takeWhile by (induction mediaId) auto

lemma id_part_nodot: "CHR ''.'' \<notin> set mediaId \<Longrightarrow> id_part mediaId = mediaId"
  unfolding id_part_takeWhile by (induction mediaId) auto

lemma findMediaFile_loop_eq:
  "findMediaFile_loop w mediaId found exts
     = found @ map (\<lambda>e. mediaId @ ''.'' @ e)
                   (filter (\<lambda>e. files w (mediaId @ ''.'' @ e) \<noteq> None) exts)"
  by (induction exts arbitrary: found) (simp_all add: Let_def existsSync_def)

lemma findMediaFile_eq:
  "findMediaFile w mediaId
     = map (\<lambda>e. mediaId @ ''.'' @ e)
           (filter (\<lambda>e. files w (mediaId @ ''.'' @ e) \<noteq> None) extensions)"
  by (simp add: findMediaFile_def findMediaFile_loop_eq)

lemma find_unique:
  "e \<in> set xs \<Longrightarrow> P e \<Longrightarrow> \<forall>x\<in>set xs. x \<noteq> e \<longrightarrow> \<not> P x \<Longrightarrow> find P xs = Some e"
  by (induction xs) auto

lemma find_holds: "find P xs = Some x \<Longrightarrow> P x"
  by (induction xs) (auto split: if_splits)

lemma first_of_filter:
  "(case map f (filter P xs) of [] \<Rightarrow> a | y # ys \<Rightarrow> g y)
     = (case find P xs of None \<Rightarrow> a | Some x \<Rightarrow> g (f x))"
  by (induction xs) simp_all

text \<open>
  \<open>getMedia\<close> in terms of the disk: it reads the file of the first probed extension
  under which the ID exists, and yields \<open>null\<close> when there is none or that one cannot
  be read.
\<close>

lemma getMedia_find:
  "getMedia w mediaId
     = (case find (\<lambda>e. files w (mediaId @ ''.'' @ e) \<noteq> None) extensions of
          None \<Rightarrow> None
        | Some e \<Rightarrow>
            if unreadable w (mediaId @ ''.'' @ e) then None
            else files w (mediaId @ ''.'' @ e))"
proof -
  have "getMedia w mediaId
          = (case find (\<lambda>e. files w (mediaId @ ''.'' @ e) \<noteq> None) extensions of
               None \<Rightarrow> None
             | Some e \<Rightarrow>
                 (case readFile w (mediaId @ ''.'' @ e) of Inl err \<Rightarrow> None | Inr b \<Rightarrow> Some b))"
    unfolding getMedia_def findMediaFile_eq by (rule first_of_filter)
  also have "\<dots> = (case find (\<lambda>e. files w (mediaId @ ''.'' @ e) \<noteq> None) extensions of
          None \<Rightarrow> None
        | Some e \<Rightarrow>
            if unreadable w (mediaId @ ''.'' @ e) then None
            else files w (mediaId @ ''.'' @ e))"
  proof (cases "find (\<lambda>e. files w (mediaId @ ''.'' @ e) \<noteq> None) extensions")
    case None
    then show ?thesis by simp
  next
    case (Some e)
    then have "files w (mediaId @ ''.'' @ e) \<noteq> None"
      by (rule find_holds)
    with Some show ?thesis by (auto simp: readFile_def)
  qed
  finally show ?thesis .
qed

lemma getMedia_None:
  "(\<forall>e\<in>set extensions. files w (mediaId @ ''.'' @ e) = None) \<Longrightarrow> getMedia w mediaId = None"
proof -
  assume "\<forall>e\<in>set extensions. files w (mediaId @ ''.'' @ e) = None"
  then have "find (\<lambda>e. files w (mediaId @ ''.'' @ e) \<noteq> None) extensions = None"
    by (simp add: find_None_iff)
  then show ?thesis by (simp add: getMedia_find)
qed

lemma getMedia_Some:
  "getMedia w mediaId = Some b \<longleftrightarrow>
   (\<exists>e. find (\<lambda>e. files w (mediaId @ ''.'' @ e) \<noteq> None) extensions = Some e \<and>
        \<not> unreadable w (mediaId @ ''.'' @ e) \<and> files w (mediaId @ ''.'' @ e) = Some b)"
  by (auto simp: getMedia_find split: option.splits if_splits)

lemma serve_upload_found:
  "getMedia w (id_part filename) = Some b \<Longrightarrow>
   serve_upload w filename
     = \<lparr> r_status = 200,
         r_headers = [(''Content-Type'', contentType_of filename),
                      (''Cache-Control'', JStr ''public, max-age=31536000'')],
         r_body = Raw b \<rparr>"
  by (simp add: serve_upload_def)

lemma serve_upload_missing:
  "getMedia w (id_part filename) = None \<Longrightarrow>
   serve_upload w filename
     = \<lparr> r_status = 404, r_headers = [], r_body = Json ''Media not found'' \<rparr>"
  by (simp add: serve_upload_def)

lemmas serve_defs = serve_upload_def getMedia_def findMediaFile_def extensions_def existsSync_def
  readFile_def id_part_def contentType_of_def ext_part_def toLowerCase_def lower_char_def
  contentTypes_def js_or_def js_lookup_def object_prototype_names_def

lemma contentType_unknown:
  "map_of contentTypes (ext_part filename) = None \<Longrightarrow>
   ext_part filename \<notin> set object_prototype_names \<Longrightarrow>
   contentType_of filename = JStr ''application/octet-stream''"
  by (simp add: contentType_of_def js_lookup_def js_or_def)

lemma contentType_known:
  "map_of contentTypes (ext_part filename) = Some t \<Longrightarrow> contentType_of filename = JStr t"
proof -
  assume a: "map_of contentTypes (ext_part filename) = Some t"
  then have "(ext_part filename, t) \<in> set contentTypes" by (rule map_of_SomeD)
  then have "t \<noteq> []" by (auto simp: contentTypes_def)
  with a show ?thesis by (simp add: contentType_of_def js_lookup_def js_or_def)
qed

text \<open>
  What the route does on every request. It answers 404 when no file \<open>id.ext\<close> exists
  for a probed extension, or the first that exists cannot be read; otherwise 200 with
  the bytes of that first file, the one-year \<open>Cache-Control\<close> and the
  \<open>Content-Type\<close> read from the table. Unless the lower-cased last segment of the
  file name is a name inherited from \<open>Object.prototype\<close>, that type is the table's
  entry, or \<open>application/octet-stream\<close> when there is none.
\<close>

lemma uploads_route_outside_inherited:
  "((\<forall>e\<in>set extensions. files w (id_part filename @ ''.'' @ e) = None) \<longrightarrow>
      serve_upload w filename
        = \<lparr> r_status = 404, r_headers = [], r_body = Json ''Media not found'' \<rparr>) \<and>
   (\<forall>e. find (\<lambda>e. files w (id_part filename @ ''.'' @ e) \<noteq> None) extensions = Some e \<and>
        unreadable w (id_part filename @ ''.'' @ e) \<longrightarrow>
      serve_upload w filename
        = \<lparr> r_status = 404, r_headers = [], r_body = Json ''Media not found'' \<rparr>) \<and>
   (\<forall>e b. find (\<lambda>e. files w (id_part filename @ ''.'' @ e) \<noteq> None) extensions = Some e \<and>
        \<not> unreadable w (id_part filename @ ''.'' @ e) \<and>
        files w (id_part filename @ ''.'' @ e) = Some b \<longrightarrow>
      serve_upload w filename
        = \<lparr> r_status = 200,
            r_headers = [(''Content-Type'', contentType_of filename),
                         (''Cache-Control'', JStr ''public, max-age=31536000'')],
            r_body = Raw b \<rparr>) \<and>
   (ext_part filename \<notin> set object_prototype_names \<longrightarrow>
      contentType_of filename
        = JStr (case map_of contentTypes (ext_part filename) of
                  None \<Rightarrow> ''application/octet-stream'' | Some t \<Rightarrow> t))"
proof (intro conjI allI impI)
  assume "\<forall>e\<in>set extensions. files w (id_part filename @ ''.'' @ e) = None"
  then show "serve_upload w filename
        = \<lparr> r_status = 404, r_headers = [], r_body = Json ''Media not found'' \<rparr>"
    by (intro serve_upload_missing getMedia_None)
next
  fix e
  assume "find (\<lambda>e. files w (id_part filename @ ''.'' @ e) \<noteq> None) extensions = Some e \<and>
        unreadable w (id_part filename @ ''.'' @ e)"
  then have "getMedia w (id_part filename) = None"
    by (simp add: getMedia_find)
  then show "serve_upload w filename
        = \<lparr> r_status = 404, r_headers = [], r_body = Json ''Media not found'' \<rparr>"
    by (rule serve_upload_missing)
next
  fix e b
  assume "find (\<lambda>e. files w (id_part filename @ ''.'' @ e) \<noteq> None) extensions = Some e \<and>
        \<not> unreadable w (id_part filename @ ''.'' @ e) \<and>
        files w (id_part filename @ ''.'' @ e) = Some b"
  then have "getMedia w (id_part filename) = Some b"
    by (simp add: getMedia_find)
  then show "serve_upload w filename
        = \<lparr> r_status = 200,
            r_headers = [(''Content-Type'', contentType_of filename),
                         (''Cache-Control'', JStr ''public, max-age=31536000'')],
            r_body = Raw b \<rparr>"
    by (rule serve_upload_found)
next
  assume "ext_part filename \<notin> set object_prototype_names"
  then show "contentType_of filename
        = JStr (case map_of contentTypes (ext_part filename) of
                  None \<Rightarrow> ''application/octet-stream'' | Some t \<Rightarrow> t)"
    by (auto simp: contentType_unknown contentType_known split: option.splits)
qed

text \<open>
  C8 fails on the code for the extensions \<open>constructor\<close> and \<open>__proto__\<close>: the
  lookup in the table of content types finds the member inherited from
  \<open>Object.prototype\<close>, which is truthy, so the fallback to
  \<open>application/octet-stream\<close> is not taken and the \<open>Content-Type\<close> header is
  set to that member, not to a MIME type. Here the code is run on
  \<open>GET /uploads/a1b2c3d4e5f60718.constructor\<close> with the file
  \<open>a1b2c3d4e5f60718.png\<close> stored.
\<close>

theorem serve_upload_content_type_inherited:
  "getMedia png_disk (id_part ''a1b2c3d4e5f60718.constructor'') = Some [77, 97, 110] \<and>
   map_of contentTypes (ext_part ''a1b2c3d4e5f60718.constructor'') = None \<and>
   serve_upload png_disk ''a1b2c3d4e5f60718.constructor''
     = \<lparr> r_status = 200,
         r_headers = [(''Content-Type'', JInherited ''constructor''),
                      (''Cache-Control'', JStr ''public, max-age=31536000'')],
         r_body = Raw [77, 97, 110] \<rparr>"
  by (simp add: serve_defs png_disk_def empty_disk_def)

text \<open>
  The route locates the file by the part of the file name before the first \<open>.\<close>
  only: two requests with the same such part get the same status and body.
\<close>

lemma uploads_route_id_only:
  "id_part f1 = takeWhile (\<lambda>c. c \<noteq> CHR ''.'') f1 \<and>
   (id_part f1 = id_part f2 \<longrightarrow>
      r_status (serve_upload w f1) = r_status (serve_upload w f2) \<and>
      r_body (serve_upload w f1) = r_body (serve_upload w f2))"
  by (simp add: id_part_takeWhile serve_upload_def split: option.splits)

text \<open>
  For a media ID (no \<open>.\<close> in it) that has a file on the disk under a probed
  extension, the first such file being readable, a request with any extension, or with
  none, is answered 200 with the bytes of that file and the \<open>Content-Type\<close> of the
  requested name.
\<close>

lemma uploads_route_any_extension:
  assumes nodot: "CHR ''.'' \<notin> set mediaId"
    and first: "find (\<lambda>e. files w (mediaId @ ''.'' @ e) \<noteq> None) extensions = Some e"
    and bytes: "files w (mediaId @ ''.'' @ e) = Some b"
    and readable: "\<not> unreadable w (mediaId @ ''.'' @ e)"
  shows "serve_upload w (mediaId @ ''.'' @ ext)
        = \<lparr> r_status = 200,
            r_headers = [(''Content-Type'', contentType_of (mediaId @ ''.'' @ ext)),
                         (''Cache-Control'', JStr ''public, max-age=31536000'')],
            r_body = Raw b \<rparr> \<and>
      serve_upload w mediaId
        = \<lparr> r_status = 200,
            r_headers = [(''Content-Type'', contentType_of mediaId),
                         (''Cache-Control'', JStr ''public, max-age=31536000'')],
            r_body = Raw b \<rparr>"
proof -
  have g: "getMedia w mediaId = Some b"
    using first bytes readable by (simp add: getMedia_find)
  have a: "id_part (mediaId @ ''.'' @ ext) = mediaId"
    using nodot by (simp add: id_part_append)
  have c: "id_part mediaId = mediaId"
    using nodot by (rule id_part_nodot)
  show ?thesis
    using g a c by (simp add: serve_upload_found)
qed

text \<open>
  An ID whose file \<open>storeMedia\<close> wrote for a MIME type outside its table, with no
  older file of that ID under a probed extension, is answered 404 under every
  extension.
\<close>

lemma uploads_route_unknown_type:
  assumes stored: "fst (storeMedia dec w u n mt) = Inr f"
    and unknown: "js_lookup mimeToExt mt = JUndefined"
    and fresh: "\<forall>e\<in>set extensions. files w (mf_id f @ ''.'' @ e) = None"
    and nodot: "CHR ''.'' \<notin> set (mf_id f)"
  shows "mf_url f = ''/uploads/'' @ mf_id f @ ''.bin'' \<and>
         files (snd (storeMedia dec w u n mt)) (mf_id f @ ''.bin'') \<noteq> None \<and>
         serve_upload (snd (storeMedia dec w u n mt)) (mf_id f @ ''.'' @ ext)
           = \<lparr> r_status = 404, r_headers = [], r_body = Json ''Media not found'' \<rparr>"
proof -
  let ?w' = "snd (storeMedia dec w u n mt)"
  have ext: "js_show (getFileExtension mt) = ''bin''"
    using unknown by (simp add: getFileExtension_def js_or_def js_show_def)
  from stored obtain p where p: "nth_opt (split_on CHR '','' u) 1 = Some p"
    and wr: "writable w (rng w (tick w) @ ''.bin'')"
    using storeMedia_fails [of dec w u n mt] ext by (cases "nth_opt (split_on CHR '','' u) 1") auto
  have id: "mf_id f = rng w (tick w)" and url: "mf_url f = ''/uploads/'' @ mf_id f @ ''.bin''"
    using stored p wr ext
    by (auto simp: storeMedia_def generateMediaId_def writeFile_def Let_def)
  have fl: "files ?w' = (files w)(mf_id f @ ''.bin'' \<mapsto> dec p)"
    using p wr ext id
    by (simp add: storeMedia_def generateMediaId_def writeFile_def Let_def)
  have "''bin'' \<notin> set extensions"
    by (simp add: extensions_def)
  then have "\<forall>e\<in>set extensions. files ?w' (mf_id f @ ''.'' @ e) = None"
    using fresh by (auto simp: fl)
  then have "getMedia ?w' (mf_id f) = None"
    by (rule getMedia_None)
  then have "serve_upload ?w' (mf_id f @ ''.'' @ ext)
           = \<lparr> r_status = 404, r_headers = [], r_body = Json ''Media not found'' \<rparr>"
    using nodot by (intro serve_upload_missing) (simp add: id_part_append)
  with url fl show ?thesis by simp
qed

text \<open>
  C10 fails on the code for a media ID stored under \<open>bin\<close>, by the same missing
  probe as in C4: the file that \<open>storeMedia\<close> wrote for a BMP data URL is on the
  disk, but the route answers 404 for its own url \<open>/uploads/a1b2c3d4e5f60718.bin\<close>
  and for every other extension, so no request returns the stored bytes.
\<close>

theorem uploads_route_bin_not_served:
  "files bin_disk ''a1b2c3d4e5f60718.bin'' = Some [77, 97, 110] \<and>
   serve_upload bin_disk ''a1b2c3d4e5f60718.bin''
     = \<lparr> r_status = 404, r_headers = [], r_body = Json ''Media not found'' \<rparr> \<and>
   serve_upload bin_disk ''a1b2c3d4e5f60718.png''
     = \<lparr> r_status = 404, r_headers = [], r_body = Json ''Media not found'' \<rparr> \<and>
   serve_upload bin_disk ''a1b2c3d4e5f60718''
     = \<lparr> r_status = 404, r_headers = [], r_body = Json ''Media not found'' \<rparr>"
  by (simp add: bin_disk_def serve_defs storeMedia_def generateMediaId_def startsWith_def
      writeFile_def getFileExtension_def js_show_def mimeToExt_def Let_def
      base64_decode_def b64_val_def b64_legal_def b64_alphabet_def empty_disk_def)

section \<open>Storing and reading back\<close>

lemmas store_defs = storeMedia_def generateMediaId_def startsWith_def writeFile_def
  getFileExtension_def js_or_def js_lookup_def mimeToExt_def js_show_def
  object_prototype_names_def Let_def

lemmas b64_defs = base64_decode_def b64_val_def b64_legal_def b64_alphabet_def

lemma mimeToExt_probed:
  "map_of mimeToExt mt = Some e \<Longrightarrow> e \<in> set extensions \<and> e \<noteq> []"
  by (auto simp: mimeToExt_def extensions_def split: if_splits)

lemma getFileExtension_known:
  "map_of mimeToExt mt = Some e \<Longrightarrow> js_show (getFileExtension mt) = e"
  using mimeToExt_probed [of mt e]
  by (simp add: getFileExtension_def js_lookup_def js_or_def js_show_def)

text \<open>
  For a MIME type of the table the round trip holds: when the data URL has a payload,
  the write succeeds, the written file can be read and the new ID has no file under
  another probed extension, \<open>getMedia\<close> on the returned ID yields the decoded payload.
\<close>

lemma storeMedia_getMedia_known:
  assumes known: "map_of mimeToExt mt = Some e"
    and payload: "nth_opt (split_on CHR '','' u) 1 = Some p"
    and wr: "writable w (rng w (tick w) @ ''.'' @ e)"
    and rd: "\<not> unreadable w (rng w (tick w) @ ''.'' @ e)"
    and fresh: "\<forall>e'\<in>set extensions. e' \<noteq> e \<longrightarrow> files w (rng w (tick w) @ ''.'' @ e') = None"
  shows "\<exists>f. fst (storeMedia dec w u n mt) = Inr f \<and> mf_id f = rng w (tick w) \<and>
             getMedia (snd (storeMedia dec w u n mt)) (mf_id f) = Some (dec p)"
proof -
  let ?id = "rng w (tick w)"
  let ?w' = "snd (storeMedia dec w u n mt)"
  have ext: "js_show (getFileExtension mt) = e"
    using known by (rule getFileExtension_known)
  have res: "\<exists>f. fst (storeMedia dec w u n mt) = Inr f \<and> mf_id f = ?id"
    using payload wr ext by (simp add: storeMedia_def generateMediaId_def writeFile_def Let_def)
  have fl: "files ?w' = (files w)(?id @ ''.'' @ e \<mapsto> dec p)"
    and ur: "unreadable ?w' = unreadable w"
    using payload wr ext by (simp_all add: storeMedia_def generateMediaId_def writeFile_def Let_def)
  have e: "e \<in> set extensions"
    using mimeToExt_probed [OF known] by simp
  have "find (\<lambda>x. files ?w' (?id @ ''.'' @ x) \<noteq> None) extensions = Some e"
  proof (rule find_unique [OF e])
    show "files ?w' (?id @ ''.'' @ e) \<noteq> None"
      by (simp add: fl)
    show "\<forall>x\<in>set extensions. x \<noteq> e \<longrightarrow> \<not> files ?w' (?id @ ''.'' @ x) \<noteq> None"
      using fresh by (simp add: fl)
  qed
  then have "getMedia ?w' ?id = Some (dec p)"
    using rd by (simp add: getMedia_find fl ur)
  with res show ?thesis by auto
qed

text \<open>
  C4 fails on the code for a MIME type outside the table: \<open>getFileExtension\<close> falls
  back to \<open>bin\<close>, \<open>storeMedia\<close> writes \<open>id.bin\<close> and returns its url, but
  \<open>findMediaFile\<close> does not probe \<open>bin\<close>, so \<open>getMedia\<close> on the returned ID
  yields \<open>null\<close> and not the decoded payload. Here the code is run on a BMP data URL.
\<close>

theorem storeMedia_getMedia_bin:
  "fst (storeMedia base64_decode empty_disk ''data:image/bmp;base64,TWFu'' ''upload'' ''image/bmp'')
     = Inr \<lparr> mf_id = ''a1b2c3d4e5f60718'', mf_originalName = ''upload'', mf_type = ''image'',
             mf_mimeType = ''image/bmp'', mf_size = 3,
             mf_url = ''/uploads/a1b2c3d4e5f60718.bin'', mf_thumbnailUrl = None \<rparr> \<and>
   base64_decode ''TWFu'' = [77, 97, 110] \<and>
   files (snd (storeMedia base64_decode empty_disk ''data:image/bmp;base64,TWFu'' ''upload''
                 ''image/bmp'')) ''a1b2c3d4e5f60718.bin'' = Some [77, 97, 110] \<and>
   getMedia (snd (storeMedia base64_decode empty_disk ''data:image/bmp;base64,TWFu'' ''upload''
                    ''image/bmp'')) ''a1b2c3d4e5f60718'' = None"
  by (simp add: serve_defs store_defs b64_defs empty_disk_def)

section \<open>The type of a stored entry\<close>

lemma storeMedia_type:
  "fst (storeMedia dec w u n mt) = Inr f \<Longrightarrow>
   mf_type f = (if startsWith mt ''image/'' then ''image'' else ''video'')"
  by (auto simp: storeMedia_def Let_def split: option.splits sum.splits)

lemma local_step_type_ignored:
  "startsWith (url m) ''data:'' \<Longrightarrow>
   \<not> isl (fst (storeMedia dec (snd st) (url m) ''upload'' (mimeType_of (url m)))) \<Longrightarrow>
   local_step dec st (m\<lparr> mtype := t \<rparr>) = local_step dec st m"
  by (auto simp: local_step_def Let_def split: prod.splits sum.splits)

lemma mimeType_of_data:
  "startsWith u ''data:'' \<Longrightarrow> takeWhile (\<lambda>c. c \<noteq> CHR '';'') (drop 5 u) \<noteq> [] \<Longrightarrow>
   mimeType_of u = takeWhile (\<lambda>c. c \<noteq> CHR '';'') (drop 5 u)"
  by (cases u) (simp_all add: mimeType_of_def startsWith_def)

text \<open>
  C9. In the local-storage service, for an entry whose url is a data URL and that is
  stored, the type of the output entry is \<open>image\<close> when the MIME type parsed from
  the url starts with \<open>image/\<close> and \<open>video\<close> otherwise. That MIME type is the run
  of characters other than \<open>;\<close> after the leading \<open>data:\<close>, and \<open>image/jpeg\<close>
  when the pattern matches nowhere. The type of the input entry is not read: changing it
  does not change what the loop body does, so input and output types can differ.
\<close>

theorem local_type_recomputed:
  "(\<forall>i<length ms. \<forall>f.
      startsWith (url (ms ! i)) ''data:'' \<and>
      fst (storeMedia dec (snd (local_processMediaUrls dec w (take i ms)))
             (url (ms ! i)) ''upload'' (mimeType_of (url (ms ! i)))) = Inr f \<longrightarrow>
      mtype (fst (local_processMediaUrls dec w ms) ! i)
        = (if startsWith (mimeType_of (url (ms ! i))) ''image/'' then ''image'' else ''video'')) \<and>
   (startsWith u ''data:'' \<and> takeWhile (\<lambda>c. c \<noteq> CHR '';'') (drop 5 u) \<noteq> [] \<longrightarrow>
      mimeType_of u = takeWhile (\<lambda>c. c \<noteq> CHR '';'') (drop 5 u)) \<and>
   (mime_match u = None \<longrightarrow> mimeType_of u = ''image/jpeg'') \<and>
   (startsWith (url m) ''data:'' \<and>
    \<not> isl (fst (storeMedia dec (snd st) (url m) ''upload'' (mimeType_of (url m)))) \<longrightarrow>
      local_step dec st (m\<lparr> mtype := t \<rparr>) = local_step dec st m)"
proof (intro conjI allI impI)
  fix i f
  assume a: "i < length ms"
    and b: "startsWith (url (ms ! i)) ''data:'' \<and>
      fst (storeMedia dec (snd (local_processMediaUrls dec w (take i ms)))
             (url (ms ! i)) ''upload'' (mimeType_of (url (ms ! i)))) = Inr f"
  have "fst (local_processMediaUrls dec w ms) ! i
          = \<lparr> mtype = mf_type f, url = mf_url f, thumbnailUrl = mf_thumbnailUrl f \<rparr>"
    using local_nth [OF a, of dec w] b
      local_step_stored [of "ms ! i" dec "local_processMediaUrls dec w (take i ms)" f]
    by simp
  then show "mtype (fst (local_processMediaUrls dec w ms) ! i)
        = (if startsWith (mimeType_of (url (ms ! i))) ''image/'' then ''image'' else ''video'')"
    using storeMedia_type [OF conjunct2 [OF b]] by simp
next
  assume "startsWith u ''data:'' \<and> takeWhile (\<lambda>c. c \<noteq> CHR '';'') (drop 5 u) \<noteq> []"
  then show "mimeType_of u = takeWhile (\<lambda>c. c \<noteq> CHR '';'') (drop 5 u)"
    by (simp add: mimeType_of_data)
next
  assume "mime_match u = None"
  then show "mimeType_of u = ''image/jpeg''" by (simp add: mimeType_of_def)
next
  assume "startsWith (url m) ''data:'' \<and>
    \<not> isl (fst (storeMedia dec (snd st) (url m) ''upload'' (mimeType_of (url m))))"
  then show "local_step dec st (m\<lparr> mtype := t \<rparr>) = local_step dec st m"
    by (simp add: local_step_type_ignored)
qed

theorem local_type_recomputed_witness:
  "(0::nat) < length [mislabelled_entry] \<and>
   startsWith (url ([mislabelled_entry] ! 0)) ''data:'' \<and>
   mimeType_of (url mislabelled_entry) = ''video/mp4'' \<and>
   \<not> isl (fst (storeMedia base64_decode empty_disk (url mislabelled_entry) ''upload''
                 (mimeType_of (url mislabelled_entry)))) \<and>
   mtype mislabelled_entry = ''image'' \<and>
   mtype (fst (local_processMediaUrls base64_decode empty_disk [mislabelled_entry]) ! 0) = ''video'' \<and>
   mime_match ''data:;base64,AAAA'' = None \<and>
   mimeType_of ''data:;base64,AAAA'' = ''image/jpeg'' \<and>
   local_step base64_decode ([], empty_disk) (mislabelled_entry\<lparr> mtype := ''video'' \<rparr>)
     = local_step base64_decode ([], empty_disk) mislabelled_entry"
proof -
  note t = local_type_recomputed
             [of "[mislabelled_entry]" base64_decode empty_disk "url mislabelled_entry"
                 mislabelled_entry "([], empty_disk)" "''video''"]
  note t2 = local_type_recomputed
             [of "[]" base64_decode empty_disk "''data:;base64,AAAA''"
                 mislabelled_entry "([], empty_disk)" "''video''"]
  have d: "startsWith (url mislabelled_entry) ''data:''"
    by (simp add: mislabelled_entry_def startsWith_def)
  have nonempty: "takeWhile (\<lambda>c. c \<noteq> CHR '';'') (drop 5 (url mislabelled_entry)) = ''video/mp4''"
    by (simp add: mislabelled_entry_def)
  from t d nonempty have mt: "mimeType_of (url mislabelled_entry) = ''video/mp4''"
    by simp
  have st: "\<not> isl (fst (storeMedia base64_decode empty_disk (url mislabelled_entry) ''upload''
                 (mimeType_of (url mislabelled_entry))))"
    unfolding mt by (simp add: store_defs mislabelled_entry_def empty_disk_def)
  then obtain f where f: "fst (storeMedia base64_decode empty_disk (url mislabelled_entry) ''upload''
                 (mimeType_of (url mislabelled_entry))) = Inr f"
    by (cases "fst (storeMedia base64_decode empty_disk (url mislabelled_entry) ''upload''
                 (mimeType_of (url mislabelled_entry)))") auto
  have w0: "snd (local_processMediaUrls base64_decode empty_disk (take 0 [mislabelled_entry]))
              = empty_disk"
    by (simp add: local_processMediaUrls_def)
  from t d f w0 mt
  have ty: "mtype (fst (local_processMediaUrls base64_decode empty_disk [mislabelled_entry]) ! 0)
              = ''video''"
    by (simp add: startsWith_def)
  have nm: "mime_match ''data:;base64,AAAA'' = None"
    by (simp add: startsWith_def)
  from t2 nm have jp: "mimeType_of ''data:;base64,AAAA'' = ''image/jpeg''"
    by blast
  from t d st
  have ig: "local_step base64_decode ([], empty_disk) (mislabelled_entry\<lparr> mtype := ''video'' \<rparr>)
     = local_step base64_decode ([], empty_disk) mislabelled_entry"
    by simp
  have lab: "mtype mislabelled_entry = ''image''"
    by (simp add: mislabelled_entry_def)
  from d mt st lab ty nm jp ig show ?thesis by simp
qed

section \<open>Client compression\<close>

lemma canvas_dim_of_nat: "canvas_dim (of_nat n) = n"
  by (simp add: canvas_dim_def)

lemma canvas_dim_quotient:
  "canvas_dim ((of_nat a * of_nat b) / of_nat c) = a * b div c"
proof -
  have "\<lfloor>(of_nat (a * b) :: rat) / of_nat c\<rfloor> = int (a * b div c)"
    by (rule floor_divide_of_nat_eq)
  then show ?thesis by (simp add: canvas_dim_def)
qed

lemma scaled_le: "(a::nat) \<le> b \<Longrightarrow> a * 800 div b \<le> 800"
proof (cases "b = 0")
  case True
  then show ?thesis by simp
next
  case False
  assume "a \<le> b"
  then have "a * 800 \<le> 800 * b" by simp
  then have "a * 800 div b \<le> 800 * b div b" by (rule div_le_mono)
  with False show ?thesis by simp
qed

lemma new_dimensions_canvas:
  "canvas_dim (fst (new_dimensions width height))
     = (if width > height then (if width > 800 then 800 else width)
        else (if height > 800 then width * 800 div height else width)) \<and>
   canvas_dim (snd (new_dimensions width height))
     = (if width > height then (if width > 800 then height * 800 div width else height)
        else (if height > 800 then 800 else height))"
  using canvas_dim_quotient [of height 800 width] canvas_dim_quotient [of width 800 height]
    canvas_dim_of_nat [of 800]
  by (simp add: new_dimensions_def Let_def canvas_dim_of_nat)

text \<open>
  C6, as stated, fails at the threshold: the test is \<open>file.size > 1024 * 1024\<close>, so
  an image of exactly 1048576 bytes is read by the file reader as it is, with its own
  dimensions and format. It also fails for an image file the browser cannot decode:
  \<open>img.onerror\<close> resolves to \<open>null\<close> and there is no output.
\<close>

theorem processFile_threshold_counterexample:
  "startsWith (file_type (png_file 1048576)) ''image/'' \<and>
   file_size (png_file 1048576) \<ge> 1048576 \<and>
   processFile (png_file 1048576)
     = Some \<lparr> cm_type = ''image'', cm_url = Reader ''data:image/png;base64,AAAA'',
              cm_thumbnailUrl = None, cm_file = png_file 1048576 \<rparr> \<and>
   startsWith (file_type broken_file) ''image/'' \<and>
   file_size broken_file \<ge> 1048576 \<and>
   processFile broken_file = None"
  by (simp add: processFile_def png_file_def broken_file_def startsWith_def)

text \<open>
  C6, amended. For every image file of more than 1048576 bytes that the browser decodes,
  the output is an image entry whose url is \<open>canvas.toDataURL('image/jpeg', 0.8)\<close> on
  a canvas whose longer side is at most 800: an image within 800 x 800 keeps its
  dimensions; otherwise the longer side becomes 800 and the other side is scaled by the
  same factor and truncated.
\<close>

theorem processFile_compresses:
  assumes "startsWith (file_type f) ''image/''"
    and "file_size f > 1048576"
    and "file_image f = Some (width, height)"
  shows "\<exists>w' h'.
     processFile f
       = Some \<lparr> cm_type = ''image'', cm_url = Canvas w' h' ''image/jpeg'' (8 / 10),
                cm_thumbnailUrl = None, cm_file = f \<rparr> \<and>
     max w' h' \<le> 800 \<and>
     (width \<le> 800 \<and> height \<le> 800 \<longrightarrow> w' = width \<and> h' = height) \<and>
     (width > height \<and> width > 800 \<longrightarrow> w' = 800 \<and> h' = height * 800 div width) \<and>
     (width \<le> height \<and> height > 800 \<longrightarrow> w' = width * 800 div height \<and> h' = 800)"
proof -
  let ?w = "canvas_dim (fst (new_dimensions width height))"
  let ?h = "canvas_dim (snd (new_dimensions width height))"
  have pf: "processFile f
       = Some \<lparr> cm_type = ''image'', cm_url = Canvas ?w ?h ''image/jpeg'' (8 / 10),
                cm_thumbnailUrl = None, cm_file = f \<rparr>"
    using assms by (simp add: processFile_def Let_def)
  have bound: "max ?w ?h \<le> 800"
    using scaled_le [of height width] scaled_le [of width height]
    by (auto simp: new_dimensions_canvas)
  have keep: "width \<le> 800 \<and> height \<le> 800 \<longrightarrow> ?w = width \<and> ?h = height"
    by (auto simp: new_dimensions_canvas)
  have wide: "width > height \<and> width > 800 \<longrightarrow> ?w = 800 \<and> ?h = height * 800 div width"
    by (auto simp: new_dimensions_canvas)
  have tall: "width \<le> height \<and> height > 800 \<longrightarrow> ?w = width * 800 div height \<and> ?h = 800"
    by (auto simp: new_dimensions_canvas)
  from pf bound keep wide tall show ?thesis by blast
qed

theorem processFile_compresses_witness:
  "startsWith (file_type (png_file 2097152)) ''image/'' \<and>
   file_size (png_file 2097152) > 1048576 \<and>
   file_image (png_file 2097152) = Some (2000, 1000) \<and>
   processFile (png_file 2097152)
     = Some \<lparr> cm_type = ''image'', cm_url = Canvas 800 400 ''image/jpeg'' (8 / 10),
              cm_thumbnailUrl = None, cm_file = png_file 2097152 \<rparr>"
proof -
  have a: "startsWith (file_type (png_file 2097152)) ''image/''"
    by (simp add: png_file_def startsWith_def)
  have b: "file_size (png_file 2097152) > 1048576"
    by (simp add: png_file_def)
  have c: "file_image (png_file 2097152) = Some (2000, 1000)"
    by (simp add: png_file_def)
  from processFile_compresses [OF a b c] obtain w' h' where
    r: "processFile (png_file 2097152)
       = Some \<lparr> cm_type = ''image'', cm_url = Canvas w' h' ''image/jpeg'' (8 / 10),
                cm_thumbnailUrl = None, cm_file = png_file 2097152 \<rparr>"
    and wide: "(2000::nat) > 1000 \<and> (2000::nat) > 800 \<longrightarrow> w' = 800 \<and> h' = 1000 * 800 div 2000"
    by blast
  from wide have "w' = 800" and "h' = 400" by simp_all
  with r a b c show ?thesis by simp
qed

text \<open>
  The other two paths, for every file: a file that is not an image of more than
  1048576 bytes is not compressed but handed over as the file reader returns it, and an
  image of more than 1048576 bytes that the browser cannot decode yields \<open>null\<close>.
\<close>

lemma processFile_uncompressed:
  "\<not> (startsWith (file_type f) ''image/'' \<and> file_size f > 1048576) \<Longrightarrow>
   file_dataUrl f = Some result \<Longrightarrow> result \<noteq> [] \<Longrightarrow>
   processFile f
     = Some \<lparr> cm_type = (if startsWith (file_type f) ''image/'' then ''image'' else ''video''),
              cm_url = Reader result,
              cm_thumbnailUrl =
                (if startsWith (file_type f) ''image/'' then None else Some (Reader result)),
              cm_file = f \<rparr>"
  by (auto simp: processFile_def Let_def)

lemma processFile_undecodable:
  "startsWith (file_type f) ''image/'' \<Longrightarrow> file_size f > 1048576 \<Longrightarrow>
   file_image f = None \<Longrightarrow> processFile f = None"
  by (simp add: processFile_def)

end
